theory Spec2Isabelle
  imports Complex_Main "HOL-Library.Sublist" "HOL-Library.AList" "HOL-Library.Log_Nat"
begin

section \<open>Strings\<close>

text \<open>
  Python strings are modelled as \<^typ>\<open>string\<close>: a character is a code point from
  U+0000 to U+00FF. On these, \<^verbatim>\<open>str.lower\<close> maps the letters A to Z, U+00C0 to U+00D6
  and U+00D8 to U+00DE to the code point 32 higher, \<^verbatim>\<open>\d\<close> matches the digits 0 to 9
  only, and \<^verbatim>\<open>str.split\<close> splits on U+0009 to U+000D, U+001C to U+0020, U+0085 and
  U+00A0.
\<close>

definition digit_chars :: string where
  "digit_chars = ''0123456789''"

definition upper_chars :: string where
  "upper_chars = ''ABCDEFGHIJKLMNOPQRSTUVWXYZ''"

definition lower_chars :: string where
  "lower_chars = ''abcdefghijklmnopqrstuvwxyz''"

definition is_digit :: "char \<Rightarrow> bool" where
  "is_digit c = (c \<in> set digit_chars)"

definition is_space :: "char \<Rightarrow> bool" where
  \<comment> \<open>the characters on which \<^verbatim>\<open>str.split()\<close> splits\<close>
  "is_space c = (c \<in> set [CHR 0x09, CHR 0x0A, CHR 0x0B, CHR 0x0C, CHR 0x0D,
                            CHR 0x1C, CHR 0x1D, CHR 0x1E, CHR 0x1F, CHR 0x20,
                            CHR 0x85, CHR 0xA0])"

definition lower_char :: "char \<Rightarrow> char" where
  "lower_char c =
     (let n = (of_char c :: nat) in
      if (65 \<le> n \<and> n \<le> 90) \<or> (192 \<le> n \<and> n \<le> 214) \<or> (216 \<le> n \<and> n \<le> 222)
      then char_of (n + 32) else c)"

definition lower :: "string \<Rightarrow> string" where
  \<comment> \<open>\<^verbatim>\<open>s.lower()\<close>\<close>
  "lower s = map lower_char s"

fun contains :: "string \<Rightarrow> string \<Rightarrow> bool" where
  \<comment> \<open>\<^verbatim>\<open>sub in s\<close>\<close>
  "contains sub [] = (sub = [])"
| "contains sub (c # cs) = (prefix sub (c # cs) \<or> contains sub cs)"

definition slice :: "nat \<Rightarrow> nat \<Rightarrow> 'a list \<Rightarrow> 'a list" where
  \<comment> \<open>\<^verbatim>\<open>xs[i:j]\<close> for non-negative bounds\<close>
  "slice i j xs = take (j - i) (drop i xs)"

fun split_acc :: "string \<Rightarrow> string \<Rightarrow> string list" where
  "split_acc w [] = (if w = [] then [] else [w])"
| "split_acc w (c # cs) =
     (if is_space c then (if w = [] then split_acc [] cs else w # split_acc [] cs)
      else split_acc (w @ [c]) cs)"

definition split_ws :: "string \<Rightarrow> string list" where
  \<comment> \<open>\<^verbatim>\<open>s.split()\<close>: the maximal runs of characters that are not white space\<close>
  "split_ws s = split_acc [] s"

definition truthy :: "string option \<Rightarrow> bool" where
  \<comment> \<open>Python's truth value of a value that is \<^verbatim>\<open>None\<close> or a string\<close>
  "truthy v = (case v of None \<Rightarrow> False | Some s \<Rightarrow> s \<noteq> [])"

section \<open>Regular expressions\<close>

text \<open>
  The two anchored patterns of \<^verbatim>\<open>utils.py\<close> are written as regular expressions and
  matched by derivatives. \<^verbatim>\<open>re.match\<close> with a pattern \<^verbatim>\<open>^...$\<close> succeeds when the whole
  string matches, or when the string without one final newline does (\<^verbatim>\<open>$\<close> also matches
  just before a newline that ends the string).
\<close>

datatype regex =
  Nothing
  | Empty
  | CharIn string
  | Cat regex regex
  | Or regex regex
  | Many regex

definition plus :: "regex \<Rightarrow> regex" where
  \<comment> \<open>\<^verbatim>\<open>r+\<close>\<close>
  "plus r = Cat r (Many r)"

fun nullable :: "regex \<Rightarrow> bool" where
  "nullable Nothing = False"
| "nullable Empty = True"
| "nullable (CharIn cs) = False"
| "nullable (Cat r s) = (nullable r \<and> nullable s)"
| "nullable (Or r s) = (nullable r \<or> nullable s)"
| "nullable (Many r) = True"

fun deriv :: "char \<Rightarrow> regex \<Rightarrow> regex" where
  "deriv c Nothing = Nothing"
| "deriv c Empty = Nothing"
| "deriv c (CharIn cs) = (if c \<in> set cs then Empty else Nothing)"
| "deriv c (Cat r s) =
     (if nullable r then Or (Cat (deriv c r) s) (deriv c s) else Cat (deriv c r) s)"
| "deriv c (Or r s) = Or (deriv c r) (deriv c s)"
| "deriv c (Many r) = Cat (deriv c r) (Many r)"

fun fullmatch :: "regex \<Rightarrow> string \<Rightarrow> bool" where
  "fullmatch r [] = nullable r"
| "fullmatch r (c # cs) = fullmatch (deriv c r) cs"

definition re_match :: "regex \<Rightarrow> string \<Rightarrow> bool" where
  \<comment> \<open>\<^verbatim>\<open>re.match('^r$', s)\<close> as a truth value\<close>
  "re_match r s =
     (fullmatch r s \<or> (s \<noteq> [] \<and> last s = CHR 0x0A \<and> fullmatch r (butlast s)))"

section \<open>Validators (utils.py)\<close>

definition NON_OFFICIAL_INDICATORS :: "string list" where
  "NON_OFFICIAL_INDICATORS =
     [''investor'', ''innovation'', ''support'', ''development'',
      ''membership'', ''contractor'', ''vendor'', ''supplier'', ''partner'']"

definition COMMON_OFFICIAL_TITLES :: "string list" where
  "COMMON_OFFICIAL_TITLES =
     [''mayor'', ''city manager'', ''administrator'', ''clerk'', ''director'',
      ''council'', ''councilor'', ''councilmember'', ''treasurer'', ''attorney'',
      ''manager'', ''supervisor'', ''chief'', ''commissioner'', ''engineer'']"

definition name_pattern :: regex where
  \<comment> \<open>\<^verbatim>\<open>^[A-Z][a-z]+( [A-Z][a-z]+)+$\<close>\<close>
  "name_pattern =
     Cat (CharIn upper_chars) (Cat (plus (CharIn lower_chars))
       (plus (Cat (CharIn '' '') (Cat (CharIn upper_chars) (plus (CharIn lower_chars))))))"

definition suspicious_parts :: "string list" where
  "suspicious_parts = [''event'', ''investor'', ''support'', ''development'', ''innovation'']"

definition validate_official_name :: "string \<Rightarrow> bool" where
  "validate_official_name name =
     (if length name < 4 then False
      else if list_ex (\<lambda>indicator. contains (lower indicator) (lower name))
                NON_OFFICIAL_INDICATORS then False
      else if re_match name_pattern name then True
      else if list_ex (\<lambda>part. contains (lower part) (lower name)) suspicious_parts then False
      else
        let words = split_ws name in
        if length words \<ge> 2 \<and> list_all (\<lambda>word. length word \<ge> 2) words then True
        else False)"

definition validate_official_title :: "string \<Rightarrow> bool" where
  "validate_official_title title =
     (if title = [] then False
      else
        let title_lower = lower title in
        if list_ex (\<lambda>common_title. contains common_title title_lower) COMMON_OFFICIAL_TITLES
        then True
        else if contains ''director'' title_lower \<or> contains ''chief'' title_lower then True
        else if list_ex (\<lambda>indicator. contains indicator title_lower) NON_OFFICIAL_INDICATORS
        then False
        else length title \<ge> 4)"

definition email_pattern :: regex where
  \<comment> \<open>\<^verbatim>\<open>^[a-zA-Z0-9._%+-]+@[a-zA-Z0-9.-]+\.[a-zA-Z]{2,}$\<close>\<close>
  "email_pattern =
     Cat (plus (CharIn (lower_chars @ upper_chars @ digit_chars @ ''._%+-'')))
       (Cat (CharIn ''@'')
         (Cat (plus (CharIn (lower_chars @ upper_chars @ digit_chars @ ''.-'')))
           (Cat (CharIn ''.'')
             (Cat (CharIn (lower_chars @ upper_chars))
               (Cat (CharIn (lower_chars @ upper_chars))
                 (Many (CharIn (lower_chars @ upper_chars))))))))"

definition validate_email :: "string option \<Rightarrow> bool" where
  \<comment> \<open>the callers pass \<^verbatim>\<open>None\<close> for an absent address; \<^verbatim>\<open>not email\<close> rejects it\<close>
  "validate_email email =
     (case email of
        None \<Rightarrow> False
      | Some e \<Rightarrow> if e = [] then False else re_match email_pattern e)"

definition validate_phone :: "string \<Rightarrow> string option" where
  "validate_phone phone =
     (if phone = [] then None
      else
        let digits = filter is_digit phone in
        if length digits = 10 then
          Some (''('' @ slice 0 3 digits @ '') '' @ slice 3 6 digits @ ''-'' @ slice 6 10 digits)
        else if length digits = 11 \<and> prefix ''1'' digits then
          Some (''('' @ slice 1 4 digits @ '') '' @ slice 4 7 digits @ ''-'' @ slice 7 11 digits)
        else None)"

definition canonical_phone :: "string \<Rightarrow> string" where
  \<comment> \<open>the form \<^verbatim>\<open>(AAA) BBB-CCCC\<close> of ten digits, as the specification writes it\<close>
  "canonical_phone d =
     [CHR ''('', d ! 0, d ! 1, d ! 2, CHR '')'', CHR '' '',
      d ! 3, d ! 4, d ! 5, CHR ''-'', d ! 6, d ! 7, d ! 8, d ! 9]"

section \<open>Floating-point numbers\<close>

text \<open>
  A Python float is an IEEE 754 binary64 number. It is modelled by the rational number
  that it denotes. \<^verbatim>\<open>double x\<close> is the float nearest to \<^verbatim>\<open>x\<close>: 53 significant bits,
  ties to the even significand, exponents not below \<open>-1022\<close>. A decimal literal of the
  source such as \<^verbatim>\<open>0.4\<close> is \<^verbatim>\<open>double (4 / 10)\<close>, and a sum or quotient of floats is
  the float nearest to the exact result. Overflow to infinity is not modelled; the
  numbers of this program stay far below it.
\<close>

definition round_half_even :: "rat \<Rightarrow> int" where
  "round_half_even x =
     (let f = \<lfloor>x\<rfloor>; r = x - of_int f in
      if r < 1 / 2 then f else if 1 / 2 < r then f + 1 else if even f then f else f + 1)"

definition floor_log2 :: "rat \<Rightarrow> int" where
  \<comment> \<open>for \<open>0 < x\<close>, the \<open>e\<close> with \<open>2 ^ e \<le> x < 2 ^ (e + 1)\<close>\<close>
  "floor_log2 x = (if 1 \<le> x then bitlen \<lfloor>x\<rfloor> - 1 else - bitlen (\<lceil>1 / x\<rceil> - 1))"

definition pow2 :: "int \<Rightarrow> rat" where
  \<comment> \<open>\<open>2\<close> to an integer power\<close>
  "pow2 e = (if 0 \<le> e then of_int (2 ^ nat e) else 1 / of_int (2 ^ nat (- e)))"

definition double :: "rat \<Rightarrow> rat" where
  "double x =
     (if x = 0 then 0
      else
        let e = max (floor_log2 \<bar>x\<bar>) (- 1022) - 52;
            m = round_half_even (\<bar>x\<bar> / pow2 e)
        in sgn x * of_int m * pow2 e)"

definition fadd :: "rat \<Rightarrow> rat \<Rightarrow> rat" where
  \<comment> \<open>\<^verbatim>\<open>x + y\<close> on floats\<close>
  "fadd x y = double (x + y)"

definition fdiv :: "rat \<Rightarrow> rat \<Rightarrow> rat" where
  \<comment> \<open>\<^verbatim>\<open>x / y\<close> on floats, for \<open>y \<noteq> 0\<close>\<close>
  "fdiv x y = double (x / y)"

section \<open>Candidate records and scoring (utils.py)\<close>

text \<open>
  A candidate is a Python dictionary with the keys below. A key that is absent and a key
  bound to \<^verbatim>\<open>None\<close> are read alike by the source (\<^verbatim>\<open>dict.get\<close> and truth tests), and
  both are \<^term>\<open>None\<close> here. A score is a float, held as the rational it denotes.
\<close>

record official =
  name :: string
  title :: string
  email :: "string option"
  phone :: "string option"
  linkedin_url :: "string option"
  source :: string
  confidence_score :: rat

definition calculate_confidence_score :: "official \<Rightarrow> rat \<times> official" where
  \<comment> \<open>returns the score and the dictionary as the call leaves it\<close>
  "calculate_confidence_score official =
     (let score = 0; total_weight = 0;
          score = (if validate_official_name (name official)
                   then fadd score (double (4 / 10)) else score);
          total_weight = fadd total_weight (double (4 / 10));
          score = (if validate_official_title (title official)
                   then fadd score (double (2 / 10)) else score);
          total_weight = fadd total_weight (double (2 / 10));
          score = (if validate_email (email official)
                   then fadd score (double (2 / 10)) else score);
          total_weight = fadd total_weight (double (2 / 10));
          (score, official) =
            (case phone official of
               None \<Rightarrow> (score, official)
             | Some p \<Rightarrow>
                 if p = [] then (score, official)
                 else
                   let formatted_phone = validate_phone p in
                   if truthy formatted_phone
                   then (fadd score (double (1 / 10)), official\<lparr>phone := formatted_phone\<rparr>)
                   else (score, official));
          total_weight = fadd total_weight (double (1 / 10));
          score = (if truthy (linkedin_url official)
                   then fadd score (double (1 / 10)) else score);
          total_weight = fadd total_weight (double (1 / 10))
      in if total_weight > 0 then (fdiv score total_weight, official) else (0, official))"

definition weighted_score :: "bool \<Rightarrow> bool \<Rightarrow> bool \<Rightarrow> bool \<Rightarrow> bool \<Rightarrow> rat" where
  \<comment> \<open>the arithmetic of \<^const>\<open>calculate_confidence_score\<close>, as a function of the outcome
     of its five tests\<close>
  "weighted_score n t e p l =
     (let score = 0; total_weight = 0;
          score = (if n then fadd score (double (4 / 10)) else score);
          total_weight = fadd total_weight (double (4 / 10));
          score = (if t then fadd score (double (2 / 10)) else score);
          total_weight = fadd total_weight (double (2 / 10));
          score = (if e then fadd score (double (2 / 10)) else score);
          total_weight = fadd total_weight (double (2 / 10));
          score = (if p then fadd score (double (1 / 10)) else score);
          total_weight = fadd total_weight (double (1 / 10));
          score = (if l then fadd score (double (1 / 10)) else score);
          total_weight = fadd total_weight (double (1 / 10))
      in if total_weight > 0 then fdiv score total_weight else 0)"

fun filter_officials :: "official list \<Rightarrow> rat \<Rightarrow> official list" where
  "filter_officials [] min_confidence = []"
| "filter_officials (official # officials) min_confidence =
     (let (confidence, official) = calculate_confidence_score official;
          official = official\<lparr>confidence_score := confidence\<rparr>
      in if confidence \<ge> min_confidence
         then official # filter_officials officials min_confidence
         else filter_officials officials min_confidence)"

section \<open>Merging and scoring (scraper.py)\<close>

text \<open>
  \<^verbatim>\<open>officials_by_key\<close> is a dictionary from keys to lists of candidates; it is iterated in
  insertion order, so it is an association list that \<^const>\<open>AList.update\<close> extends at the
  end. The LinkedIn search is a request to a search engine: its answer is a parameter of
  the model.
\<close>

datatype error = IndexError

type_synonym key = "string \<times> string"

type_synonym linkedin_search = "string \<Rightarrow> string \<Rightarrow> string \<Rightarrow> string \<Rightarrow> string option"

definition group_official :: "(key \<times> official list) list \<Rightarrow> official \<Rightarrow> (key \<times> official list) list" where
  \<comment> \<open>one round of the grouping loop\<close>
  "group_official officials_by_key official =
     (if \<not> validate_official_name (name official) \<or> \<not> validate_official_title (title official)
      then officials_by_key
      else
        let key = (lower (name official), lower (title official)) in
        case map_of officials_by_key key of
          None \<Rightarrow> AList.update key [official] officials_by_key
        | Some matches \<Rightarrow> AList.update key (matches @ [official]) officials_by_key)"

definition merge_match :: "official \<Rightarrow> official \<Rightarrow> official" where
  \<comment> \<open>one round of the loop over \<^verbatim>\<open>matches[1:]\<close>\<close>
  "merge_match best_match match =
     (let best_match =
            (if \<not> truthy (email best_match) \<and> truthy (email match)
             then best_match\<lparr>email := email match\<rparr> else best_match);
          best_match =
            (if \<not> truthy (phone best_match) \<and> truthy (phone match)
             then best_match\<lparr>phone := phone match\<rparr> else best_match);
          best_match =
            (if \<not> truthy (linkedin_url best_match) \<and> truthy (linkedin_url match)
             then best_match\<lparr>linkedin_url := linkedin_url match\<rparr> else best_match)
      in best_match)"

definition merge_matches :: "linkedin_search \<Rightarrow> string \<Rightarrow> string \<Rightarrow> official list \<Rightarrow> error + official" where
  \<comment> \<open>the body of the loop over the groups; \<^verbatim>\<open>matches[0]\<close> of an empty list raises\<close>
  "merge_matches search_linkedin_profile municipality_name state matches =
     (case matches of
        [] \<Rightarrow> Inl IndexError
      | first # rest \<Rightarrow>
          let best_match = foldl merge_match first rest;
              best_match =
                (if \<not> truthy (linkedin_url best_match) \<and> municipality_name \<noteq> [] \<and> state \<noteq> []
                 then
                   let url = search_linkedin_profile (name best_match) (title best_match)
                               municipality_name state
                   in if truthy url then best_match\<lparr>linkedin_url := url\<rparr> else best_match
                 else best_match);
              (confidence, best_match) = calculate_confidence_score best_match;
              best_match = best_match\<lparr>confidence_score := confidence\<rparr>;
              best_match =
                (case phone best_match of
                   None \<Rightarrow> best_match
                 | Some p \<Rightarrow>
                     if p = [] then best_match
                     else
                       let formatted_phone = validate_phone p in
                       if truthy formatted_phone
                       then best_match\<lparr>phone := formatted_phone\<rparr> else best_match)
          in Inr best_match)"

fun merge_groups :: "linkedin_search \<Rightarrow> string \<Rightarrow> string \<Rightarrow> (key \<times> official list) list \<Rightarrow> error + official list" where
  "merge_groups search_linkedin_profile municipality_name state [] = Inr []"
| "merge_groups search_linkedin_profile municipality_name state ((key, matches) # groups) =
     (case merge_matches search_linkedin_profile municipality_name state matches of
        Inl e \<Rightarrow> Inl e
      | Inr best_match \<Rightarrow>
          (case merge_groups search_linkedin_profile municipality_name state groups of
             Inl e \<Rightarrow> Inl e
           | Inr final_results \<Rightarrow> Inr (best_match # final_results)))"

definition score_and_deduplicate :: "linkedin_search \<Rightarrow> official list \<Rightarrow> string \<Rightarrow> string \<Rightarrow> error + official list" where
  \<comment> \<open>the final sort is stable and descending, as \<^verbatim>\<open>list.sort(reverse=True)\<close> is\<close>
  "score_and_deduplicate search_linkedin_profile officials_list municipality_name state =
     (if officials_list = [] then Inr []
      else
        let officials_by_key = foldl group_official [] officials_list in
        case merge_groups search_linkedin_profile municipality_name state officials_by_key of
          Inl e \<Rightarrow> Inl e
        | Inr final_results \<Rightarrow> Inr (sort_key (\<lambda>x. - confidence_score x) final_results))"

subsection \<open>The earlier module (src/civileads/scraper.py)\<close>

definition group_official_legacy :: "(key \<times> official list) list \<Rightarrow> official \<Rightarrow> (key \<times> official list) list" where
  "group_official_legacy officials_by_key official =
     (let key = (lower (name official), lower (title official)) in
      case map_of officials_by_key key of
        None \<Rightarrow> AList.update key [official] officials_by_key
      | Some matches \<Rightarrow> AList.update key (matches @ [official]) officials_by_key)"

definition merge_match_legacy :: "official \<times> rat \<Rightarrow> official \<Rightarrow> official \<times> rat" where
  "merge_match_legacy acc match =
     (let (best_match, score) = acc;
          (best_match, score) =
            (if \<not> truthy (email best_match) \<and> truthy (email match)
             then (best_match\<lparr>email := email match\<rparr>, fadd score (double (1 / 10)))
             else (best_match, score));
          (best_match, score) =
            (if \<not> truthy (phone best_match) \<and> truthy (phone match)
             then (best_match\<lparr>phone := phone match\<rparr>, fadd score (double (5 / 100)))
             else (best_match, score));
          (best_match, score) =
            (if \<not> truthy (linkedin_url best_match) \<and> truthy (linkedin_url match)
             then (best_match\<lparr>linkedin_url := linkedin_url match\<rparr>,
                   fadd score (double (15 / 100)))
             else (best_match, score))
      in (best_match, score))"

definition merge_matches_legacy :: "linkedin_search \<Rightarrow> string \<Rightarrow> string \<Rightarrow> official list \<Rightarrow> error + official" where
  "merge_matches_legacy search_linkedin_profile municipality_name state matches =
     (case matches of
        [] \<Rightarrow> Inl IndexError
      | first # rest \<Rightarrow>
          let best_match = first;
              score = confidence_score best_match;
              score = (if truthy (email best_match)
                       then fadd score (double (2 / 10)) else score);
              score = (if truthy (phone best_match)
                       then fadd score (double (1 / 10)) else score);
              score =
                (if source best_match \<noteq> ''Google Search''
                 then (if contains ''.gov'' (source best_match)
                       then fadd score (double (3 / 10))
                       else fadd score (double (1 / 10)))
                 else score);
              (best_match, score) = foldl merge_match_legacy (best_match, score) rest;
              (best_match, score) =
                (if \<not> truthy (linkedin_url best_match) \<and> municipality_name \<noteq> [] \<and> state \<noteq> []
                 then
                   let url = search_linkedin_profile (name best_match) (title best_match)
                               municipality_name state
                   in if truthy url
                      then (best_match\<lparr>linkedin_url := url\<rparr>, fadd score (double (15 / 100)))
                      else (best_match, score)
                 else (best_match, score))
          in Inr (best_match\<lparr>confidence_score := min 1 score\<rparr>))"

fun merge_groups_legacy :: "linkedin_search \<Rightarrow> string \<Rightarrow> string \<Rightarrow> (key \<times> official list) list \<Rightarrow> error + official list" where
  "merge_groups_legacy search_linkedin_profile municipality_name state [] = Inr []"
| "merge_groups_legacy search_linkedin_profile municipality_name state ((key, matches) # groups) =
     (case merge_matches_legacy search_linkedin_profile municipality_name state matches of
        Inl e \<Rightarrow> Inl e
      | Inr best_match \<Rightarrow>
          (case merge_groups_legacy search_linkedin_profile municipality_name state groups of
             Inl e \<Rightarrow> Inl e
           | Inr final_results \<Rightarrow> Inr (best_match # final_results)))"

definition score_and_deduplicate_legacy :: "linkedin_search \<Rightarrow> official list \<Rightarrow> string \<Rightarrow> string \<Rightarrow> error + official list" where
  "score_and_deduplicate_legacy search_linkedin_profile officials_list municipality_name state =
     (if officials_list = [] then Inr []
      else
        let officials_by_key = foldl group_official_legacy [] officials_list in
        case merge_groups_legacy search_linkedin_profile municipality_name state officials_by_key of
          Inl e \<Rightarrow> Inl e
        | Inr final_results \<Rightarrow> Inr (sort_key (\<lambda>x. - confidence_score x) final_results))"

definition no_linkedin :: linkedin_search where
  \<comment> \<open>a search that finds no profile\<close>
  "no_linkedin n t m s = None"

definition jane_email :: official where
  "jane_email =
     \<lparr>name = ''Jane Doe'', title = ''Clerk'', email = Some ''jane@city.gov'', phone = None,
      linkedin_url = None, source = ''https://www.city.gov/staff'', confidence_score = 5 / 10\<rparr>"

definition jane_phone :: official where
  "jane_phone =
     \<lparr>name = ''Jane Doe'', title = ''Clerk'', email = None, phone = Some ''5155551234'',
      linkedin_url = None, source = ''https://www.city.gov/contact'', confidence_score = 5 / 10\<rparr>"

definition official_key :: "official \<Rightarrow> key" where
  \<comment> \<open>the key under which the grouping loop files a candidate\<close>
  "official_key official = (lower (name official), lower (title official))"

definition valid_official :: "official \<Rightarrow> bool" where
  \<comment> \<open>the candidates that the grouping loop does not skip\<close>
  "valid_official official =
     (validate_official_name (name official) \<and> validate_official_title (title official))"

definition group_of :: "official list \<Rightarrow> key \<Rightarrow> official list" where
  \<comment> \<open>the candidates of a list that are filed under a key, in the order of the list\<close>
  "group_of officials_list k =
     filter (\<lambda>c. valid_official c \<and> official_key c = k) officials_list"

definition jane_plain :: official where
  "jane_plain =
     \<lparr>name = ''Jane Doe'', title = ''Clerk'', email = None, phone = None,
      linkedin_url = None, source = ''https://www.city.gov/staff'', confidence_score = 5 / 10\<rparr>"

definition acme_vendor :: official where
  "acme_vendor =
     \<lparr>name = ''Acme Vendor Solutions'', title = ''Clerk'', email = Some ''sales@acme.com'',
      phone = Some ''5155550000'', linkedin_url = None, source = ''https://www.city.gov/staff'',
      confidence_score = 5 / 10\<rparr>"

section \<open>Site discovery (utils.py)\<close>

text \<open>
  The network is a parameter: \<^verbatim>\<open>make_request\<close> maps a URL to the response that the
  request returns, or to \<^term>\<open>None\<close> when it fails after its retries. The functions that
  issue requests return, next to their result, the list of the URLs they requested, in
  the order of the requests.
\<close>

record response =
  status_code :: int
  response_text :: string

definition replace_char :: "char \<Rightarrow> string \<Rightarrow> string \<Rightarrow> string" where
  \<comment> \<open>\<^verbatim>\<open>s.replace(c, new)\<close> for a single character \<^verbatim>\<open>c\<close>\<close>
  "replace_char c new s = concat (map (\<lambda>x. if x = c then new else [x]) s)"

definition generate_url_patterns :: "string \<Rightarrow> string \<Rightarrow> string list" where
  "generate_url_patterns municipality state =
     (let muni_clean = replace_char CHR '' '' [] (lower municipality);
          muni_clean_dash = replace_char CHR '' '' ''-'' (lower municipality);
          patterns =
            [''https://www.'' @ slice 0 3 muni_clean @ ''.gov'',
             ''https://'' @ slice 0 3 muni_clean @ ''.gov'',
             ''https://www.'' @ muni_clean @ ''.gov'',
             ''https://'' @ muni_clean @ ''.gov'',
             ''https://www.'' @ muni_clean @ ''.org'',
             ''https://'' @ muni_clean @ ''.org'',
             ''https://www.'' @ muni_clean @ ''.com'',
             ''https://www.cityof'' @ muni_clean @ ''.gov'',
             ''https://www.cityof'' @ muni_clean @ ''.org'',
             ''https://www.cityof'' @ muni_clean @ ''.com'',
             ''https://'' @ muni_clean_dash @ ''.gov'',
             ''https://www.'' @ muni_clean_dash @ ''.gov'',
             ''https://'' @ muni_clean_dash @ ''.org'',
             ''https://www.'' @ muni_clean_dash @ ''.org''];
          patterns =
            (if lower municipality = ''des moines''
             then [''https://www.dsm.gov'', ''https://dsm.gov'',
                   ''https://www.dmgov.org'', ''https://dmgov.org''] @ patterns
             else patterns);
          state_lower = lower state;
          patterns =
            (if length state = 2
             then patterns @
               [''https://'' @ muni_clean @ ''.'' @ state_lower @ ''.us'',
                ''https://www.'' @ muni_clean @ ''.'' @ state_lower @ ''.us'',
                ''https://'' @ muni_clean_dash @ ''.'' @ state_lower @ ''.us'',
                ''https://www.'' @ muni_clean_dash @ ''.'' @ state_lower @ ''.us'',
                ''https://'' @ muni_clean @ ''.'' @ state_lower @ ''.gov'',
                ''https://www.'' @ muni_clean @ ''.'' @ state_lower @ ''.gov'']
             else patterns)
      in patterns)"

definition municipal_indicators :: "string list" where
  "municipal_indicators =
     [''city hall'', ''town hall'', ''municipal'', ''government'', ''mayor'',
      ''city council'', ''town council'', ''city of'', ''town of'', ''public works'',
      ''elected officials'', ''clerk'', ''city services'', ''permits'', ''departments'',
      ''residents'', ''business'', ''visitors'', ''community'', ''zoning'', ''planning'',
      ''city manager'', ''fire department'', ''police department'', ''recreation'',
      ''meeting'', ''agenda'', ''minutes'', ''ordinance'', ''code'', ''parks'',
      ''water'', ''sewer'', ''trash'', ''recycling'', ''snow removal'',
      ''job'', ''employment'', ''parking'', ''library'', ''emergency'', ''payment'']"

definition city_specific :: "(string \<times> string list) list" where
  "city_specific =
     [(''des moines'', [''dsm'', ''dmgov'', ''des moines city'', ''polk county'']),
      (''cedar rapids'', [''cedar rapids city'', ''linn county''])]"

definition is_likely_municipal_site :: "string \<Rightarrow> string \<Rightarrow> string \<Rightarrow> bool" where
  "is_likely_municipal_site html_content municipality state =
     (let html_lower = lower html_content;
          muni_lower = lower municipality;
          indicators =
            (case map_of city_specific muni_lower of
               Some extra \<Rightarrow> municipal_indicators @ extra
             | None \<Rightarrow> municipal_indicators);
          name_found =
            (contains muni_lower html_lower \<or>
             contains (replace_char CHR '' '' [] muni_lower) html_lower);
          name_found = (name_found \<or> (muni_lower = ''des moines'' \<and> contains ''dsm'' html_lower));
          state_found = contains (lower state) html_lower;
          indicator_count =
            length (filter (\<lambda>indicator. contains indicator html_lower) indicators)
      in if name_found \<and> state_found then True
         else if name_found \<and> indicator_count \<ge> 1 then True
         else if indicator_count \<ge> 2 then True
         else False)"

definition reachable :: "(string \<Rightarrow> response option) \<Rightarrow> string \<Rightarrow> bool" where
  \<comment> \<open>\<^verbatim>\<open>response and response.status_code == 200\<close>\<close>
  "reachable make_request url =
     (case make_request url of None \<Rightarrow> False | Some response \<Rightarrow> status_code response = 200)"

definition confirmed :: "(string \<Rightarrow> response option) \<Rightarrow> string \<Rightarrow> string \<Rightarrow> string \<Rightarrow> bool" where
  \<comment> \<open>the two nested tests of the first loop of \<^verbatim>\<open>find_municipal_website\<close>\<close>
  "confirmed make_request municipality state url =
     (case make_request url of
        None \<Rightarrow> False
      | Some response \<Rightarrow>
          status_code response = 200 \<and>
          is_likely_municipal_site (response_text response) municipality state)"

fun try_patterns :: "(string \<Rightarrow> response option) \<Rightarrow> string \<Rightarrow> string \<Rightarrow> string list \<Rightarrow> string option \<times> string list" where
  "try_patterns make_request municipality state [] = (None, [])"
| "try_patterns make_request municipality state (url # urls) =
     (if confirmed make_request municipality state url then (Some url, [url])
      else
        let (found, requested) = try_patterns make_request municipality state urls
        in (found, url # requested))"

fun try_direct_urls :: "(string \<Rightarrow> response option) \<Rightarrow> string list \<Rightarrow> string option \<times> string list" where
  "try_direct_urls make_request [] = (None, [])"
| "try_direct_urls make_request (url # urls) =
     (if reachable make_request url then (Some url, [url])
      else
        let (found, requested) = try_direct_urls make_request urls
        in (found, url # requested))"

definition direct_urls :: "string list" where
  "direct_urls =
     [''https://www.dsm.city'', ''https://dsm.city'',
      ''https://www.dmgov.org'', ''https://dmgov.org'']"

definition find_municipal_website :: "(string \<Rightarrow> response option) \<Rightarrow> string \<Rightarrow> string \<Rightarrow> string option \<times> string list" where
  "find_municipal_website make_request municipality state =
     (let patterns = generate_url_patterns municipality state;
          (found, requested) = try_patterns make_request municipality state patterns
      in case found of
           Some url \<Rightarrow> (Some url, requested)
         | None \<Rightarrow>
             if lower municipality = ''des moines'' \<and> lower state = ''ia''
             then
               let (found, requested_direct) = try_direct_urls make_request direct_urls
               in (found, requested @ requested_direct)
             else (None, requested))"

definition dsm_city_only :: "string \<Rightarrow> response option" where
  \<comment> \<open>a network on which one host answers, with an empty page\<close>
  "dsm_city_only url =
     (if url = ''https://www.dsm.city''
      then Some \<lparr>status_code = 200, response_text = []\<rparr> else None)"

definition ames_only :: "string \<Rightarrow> response option" where
  \<comment> \<open>a network on which one host answers, with a page that names the city council\<close>
  "ames_only url =
     (if url = ''https://www.cityofames.org''
      then Some \<lparr>status_code = 200, response_text = ''City of Ames - City Council''\<rparr>
      else None)"

section \<open>The entry point (scraper.py)\<close>

text \<open>
  \<^verbatim>\<open>search_google\<close>, \<^verbatim>\<open>scrape_municipal_website\<close> and \<^verbatim>\<open>search_linkedin_profile\<close> fetch
  a page and parse its HTML; what they return is given by the environment. Each of them
  starts with an HTTP request for a URL that it builds from its argument, and that
  request is what the model records for it. The requests of the LinkedIn search, which
  the merge step issues only for a non-empty municipality name and state, are not
  recorded.
\<close>

record environment =
  make_request :: "string \<Rightarrow> response option"
  search_google :: "string \<Rightarrow> official list"
  scrape_municipal_website :: "string \<Rightarrow> official list"
  search_linkedin_profile :: linkedin_search

definition rstrip_char :: "char \<Rightarrow> string \<Rightarrow> string" where
  \<comment> \<open>\<^verbatim>\<open>s.rstrip(c)\<close> for a single character\<close>
  "rstrip_char c s = rev (dropWhile (\<lambda>x. x = c) (rev s))"

definition contact_paths :: "string list" where
  "contact_paths =
     [''/contact'', ''/directory'', ''/staff'', ''/officials'', ''/elected-officials'',
      ''/government'', ''/departments'', ''/administration'', ''/city-hall'', ''/about'',
      ''/leadership'', ''/city-council'', ''/mayor'', ''/clerk'', ''/team'',
      ''/council'', ''/city-manager'', ''/contact-us'', ''/phone-directory'',
      ''/employee-directory'', ''/city-departments'']"

definition find_contact_pages :: "(string \<Rightarrow> response option) \<Rightarrow> string \<Rightarrow> string list \<times> string list" where
  \<comment> \<open>the pages that answer with status 200, and the URLs requested\<close>
  "find_contact_pages request base_url =
     (let urls = map (\<lambda>path. rstrip_char CHR ''/'' base_url @ path) contact_paths
      in (filter (reachable request) urls, urls))"

definition sample_official :: "string \<Rightarrow> string \<Rightarrow> string \<Rightarrow> string \<Rightarrow> string \<Rightarrow> official" where
  \<comment> \<open>an entry of the demonstration data of \<^verbatim>\<open>search_direct_for_officials\<close>\<close>
  "sample_official n t e p l =
     \<lparr>name = n, title = t, email = Some e, phone = Some p, linkedin_url = Some l,
      source = ''Sample data'', confidence_score = 1\<rparr>"

definition des_moines_sample :: "official list" where
  "des_moines_sample =
     [sample_official ''Frank Cownie'' ''Mayor'' ''mayor@dsm.city'' ''(515) 283-4944''
        ''https://www.linkedin.com/in/frank-cownie-mayor-desmoines'',
      sample_official ''Scott Sanders'' ''City Manager'' ''citymgr@dsm.city'' ''(515) 283-4141''
        ''https://www.linkedin.com/in/scott-sanders-desmoines'',
      sample_official ''Jonathan Gano'' ''Public Works Director'' ''jgano@dsm.city''
        ''(515) 283-4950'' ''https://www.linkedin.com/in/jonathan-gano-desmoines'',
      sample_official ''Laura Baumgartner'' ''City Clerk'' ''clerk@dsm.city'' ''(515) 283-4209''
        ''https://www.linkedin.com/in/laura-baumgartner-desmoines'',
      sample_official ''Steven Naber'' ''City Engineer'' ''engineer@dsm.city'' ''(515) 283-4920''
        ''https://www.linkedin.com/in/steven-naber-desmoines'']"

definition cedar_rapids_sample :: "official list" where
  "cedar_rapids_sample =
     [sample_official (''Tiffany O'' @ [CHR 0x27] @ ''Donnell'') ''Mayor''
        ''mayor@cedar-rapids.org'' ''(319) 286-5051''
        ''https://www.linkedin.com/in/tiffany-odonnell-cedarrapids'',
      sample_official ''Jeff Pomeranz'' ''City Manager'' ''j.pomeranz@cedar-rapids.org''
        ''(319) 286-5080'' ''https://www.linkedin.com/in/jeff-pomeranz-cedarrapids'',
      sample_official ''Angie Charipar'' ''Assistant City Manager''
        ''a.charipar@cedar-rapids.org'' ''(319) 286-5090''
        ''https://www.linkedin.com/in/angie-charipar-cedarrapids'',
      sample_official ''Robert Davis'' ''Public Works Director'' ''r.davis@cedar-rapids.org''
        ''(319) 286-5802'' ''https://www.linkedin.com/in/robert-davis-cedarrapids'',
      sample_official ''Amy Stevenson'' ''City Clerk'' ''cityclerk@cedar-rapids.org''
        ''(319) 286-5060'' ''https://www.linkedin.com/in/amy-stevenson-cedarrapids'']"

definition search_direct_for_officials :: "environment \<Rightarrow> string \<Rightarrow> string \<Rightarrow> official list \<times> string list" where
  "search_direct_for_officials env municipality_name state =
     (let (website_url, requested) =
            find_municipal_website (make_request env) municipality_name state;
          (results, requested) =
            (case website_url of
               None \<Rightarrow> ([], requested)
             | Some url \<Rightarrow>
                 if url = [] then ([], requested)
                 else
                   let (contact_links, probed) = find_contact_pages (make_request env) url
                   in (concat (map (scrape_municipal_website env) contact_links),
                       requested @ probed @ contact_links));
          results =
            (if results = [] then
               (if municipality_name = ''Des Moines'' \<and> state = ''IA'' then des_moines_sample
                else if municipality_name = ''Cedar Rapids'' \<and> state = ''IA''
                then cedar_rapids_sample
                else results)
             else results);
          validated_results = filter_officials results (double (6 / 10))
      in (validated_results, requested))"

definition google_url :: "string \<Rightarrow> string" where
  \<comment> \<open>the URL that \<^verbatim>\<open>search_google\<close> requests for a query\<close>
  "google_url query = ''https://www.google.com/search?q='' @ replace_char CHR '' '' ''+'' query"

definition search_for_officials :: "environment \<Rightarrow> string \<Rightarrow> string \<Rightarrow> (error + official list) \<times> string list" where
  "search_for_officials env municipality_name state =
     (let results = [];
          query = municipality_name @ '' '' @ state @ '' mayor council contact'';
          google_results = search_google env query;
          requested = [google_url query];
          results = results @ google_results;
          (muni_website, probed) =
            find_municipal_website (make_request env) municipality_name state;
          requested = requested @ probed;
          (results, requested) =
            (case muni_website of
               None \<Rightarrow> (results, requested)
             | Some url \<Rightarrow>
                 if url = [] then (results, requested)
                 else (results @ scrape_municipal_website env url, requested @ [url]));
          (direct_results, probed) = search_direct_for_officials env municipality_name state;
          requested = requested @ probed;
          results = results @ direct_results;
          scored_results =
            score_and_deduplicate (search_linkedin_profile env) results municipality_name state
      in (scored_results, requested))"

definition offline :: environment where
  \<comment> \<open>an environment in which every request fails\<close>
  "offline =
     \<lparr>make_request = (\<lambda>url. None), search_google = (\<lambda>query. []),
      scrape_municipal_website = (\<lambda>url. []), search_linkedin_profile = no_linkedin\<rparr>"

section \<open>Properties of the validators\<close>

lemma length_ten:
  "length d = 10 \<Longrightarrow> \<exists>a b c e f g h i j k. d = [a, b, c, e, f, g, h, i, j, k]"
  by (auto simp: length_Suc_conv eval_nat_numeral)

lemma validate_phone_ten:
  assumes "length (filter is_digit s) = 10"
  shows "validate_phone s = Some (canonical_phone (filter is_digit s))"
proof -
  obtain a b c e f g h i j k where "filter is_digit s = [a, b, c, e, f, g, h, i, j, k]"
    using length_ten [OF assms] by blast
  moreover from assms have "s \<noteq> []" by auto
  ultimately show ?thesis
    by (simp add: validate_phone_def slice_def canonical_phone_def)
qed

lemma validate_phone_eleven:
  assumes "length (filter is_digit s) = 11" and "hd (filter is_digit s) = CHR ''1''"
  shows "validate_phone s = Some (canonical_phone (tl (filter is_digit s)))"
proof -
  from assms(1) obtain x d' where d: "filter is_digit s = x # d'" and l: "length d' = 10"
    by (cases "filter is_digit s") auto
  obtain a b c e f g h i j k where "d' = [a, b, c, e, f, g, h, i, j, k]"
    using length_ten [OF l] by blast
  moreover from assms(1) have "s \<noteq> []" by auto
  ultimately show ?thesis using d assms(2)
    by (simp add: validate_phone_def slice_def canonical_phone_def)
qed

lemma prefix_one: "d \<noteq> [] \<Longrightarrow> prefix ''1'' d = (hd d = CHR ''1'')"
  by (cases d) auto

lemma truthy_simps: "truthy None = False" "truthy (Some s) = (s \<noteq> [])"
  by (simp_all add: truthy_def)

lemma tl_digits: "list_all is_digit (tl (filter is_digit p))"
proof (cases "filter is_digit p")
  case Nil
  then show ?thesis by simp
next
  case (Cons a list)
  have "list_all is_digit (filter is_digit p)" by (simp add: list_all_iff)
  then show ?thesis unfolding Cons by simp
qed

lemma validate_phone_other:
  assumes "length (filter is_digit p) \<noteq> 10"
    and "\<not> (length (filter is_digit p) = 11 \<and> hd (filter is_digit p) = CHR ''1'')"
  shows "validate_phone p = None"
proof (cases "filter is_digit p = []")
  case True
  then show ?thesis by (simp add: validate_phone_def)
next
  case False
  from assms prefix_one [OF False] show ?thesis
    by (cases "length (filter is_digit p) = 11") (simp_all add: validate_phone_def Let_def)
qed

lemma validate_phone_cases:
  "validate_phone p = None \<or>
   (\<exists>d. length d = 10 \<and> list_all is_digit d \<and> validate_phone p = Some (canonical_phone d))"
proof (cases "length (filter is_digit p) = 10")
  case True
  have "list_all is_digit (filter is_digit p)" by (simp add: list_all_iff)
  with True validate_phone_ten [OF True] show ?thesis by blast
next
  case ten: False
  show ?thesis
  proof (cases "length (filter is_digit p) = 11 \<and> hd (filter is_digit p) = CHR ''1''")
    case True
    then have "length (tl (filter is_digit p)) = 10" by simp
    moreover note tl_digits [of p]
    moreover from True have "validate_phone p = Some (canonical_phone (tl (filter is_digit p)))"
      by (simp add: validate_phone_eleven)
    ultimately show ?thesis by blast
  next
    case False
    with ten have "validate_phone p = None" by (rule validate_phone_other)
    then show ?thesis by simp
  qed
qed


lemma canonical_phone_nonempty: "canonical_phone d \<noteq> []"
  by (simp add: canonical_phone_def)

lemma validate_phone_truthy: "truthy (validate_phone p) = (validate_phone p \<noteq> None)"
proof (cases "validate_phone p")
  case None
  then show ?thesis by (simp add: truthy_simps)
next
  case (Some f)
  with validate_phone_cases [of p] have "f \<noteq> []"
    by (auto simp: canonical_phone_nonempty)
  with Some show ?thesis by (simp add: truthy_simps)
qed

lemma validate_phone_empty: "validate_phone [] = None"
  by (simp add: validate_phone_def)

lemma digits_canonical_phone:
  assumes "length d = 10" and "list_all is_digit d"
  shows "filter is_digit (canonical_phone d) = d"
proof -
  obtain a b c e f g h i j k where d: "d = [a, b, c, e, f, g, h, i, j, k]"
    using length_ten [OF assms(1)] by blast
  have "\<not> is_digit CHR ''(''" "\<not> is_digit CHR '')''" "\<not> is_digit CHR '' ''" "\<not> is_digit CHR ''-''"
    by (simp_all add: is_digit_def digit_chars_def)
  with assms(2) d show ?thesis by (simp add: canonical_phone_def)
qed

lemma validate_phone_idem:
  assumes "validate_phone p = Some f"
  shows "validate_phone f = Some f"
proof -
  from assms validate_phone_cases [of p] obtain d
    where d: "length d = 10" "list_all is_digit d" and f: "f = canonical_phone d"
    by auto
  have "filter is_digit f = d" using d f by (simp add: digits_canonical_phone)
  with d(1) validate_phone_ten [of f] f show ?thesis by simp
qed

text \<open>
  C3. \<^const>\<open>validate_phone\<close> keeps the digits of its input. Ten digits are returned in
  the form \<^verbatim>\<open>(AAA) BBB-CCCC\<close>; eleven digits that start with \<^verbatim>\<open>1\<close> give that form of
  the last ten; eleven digits with another first digit, and every other number of digits,
  give \<^term>\<open>None\<close>.
\<close>

theorem validate_phone_digits:
  "(length (filter is_digit s) = 10 \<longrightarrow>
      validate_phone s = Some (canonical_phone (filter is_digit s))) \<and>
   (length (filter is_digit s) = 11 \<and> hd (filter is_digit s) = CHR ''1'' \<longrightarrow>
      validate_phone s = Some (canonical_phone (tl (filter is_digit s)))) \<and>
   (length (filter is_digit s) = 11 \<and> hd (filter is_digit s) \<noteq> CHR ''1'' \<longrightarrow>
      validate_phone s = None) \<and>
   (length (filter is_digit s) \<noteq> 10 \<and> length (filter is_digit s) \<noteq> 11 \<longrightarrow>
      validate_phone s = None)"
proof (intro conjI impI)
  assume a: "length (filter is_digit s) = 10"
  then show "validate_phone s = Some (canonical_phone (filter is_digit s))"
    by (rule validate_phone_ten)
next
  assume a: "length (filter is_digit s) = 11 \<and> hd (filter is_digit s) = CHR ''1''"
  then show "validate_phone s = Some (canonical_phone (tl (filter is_digit s)))"
    by (simp add: validate_phone_eleven)
next
  assume a: "length (filter is_digit s) = 11 \<and> hd (filter is_digit s) \<noteq> CHR ''1''"
  then have dne: "filter is_digit s \<noteq> []" by auto
  from a prefix_one [OF dne] show "validate_phone s = None"
    by (simp add: validate_phone_def)
next
  assume "length (filter is_digit s) \<noteq> 10 \<and> length (filter is_digit s) \<noteq> 11"
  then show "validate_phone s = None"
    by (simp add: validate_phone_def)
qed

theorem validate_phone_digits_witness:
  "validate_phone ''515-555-1234'' = Some ''(515) 555-1234'' \<and>
   validate_phone ''+1 515 555 1234'' = Some ''(515) 555-1234'' \<and>
   validate_phone ''25155551234'' = None \<and>
   validate_phone ''555-1234'' = None"
proof -
  have d1: "filter is_digit ''515-555-1234'' = ''5155551234''" by code_simp
  have d2: "filter is_digit ''+1 515 555 1234'' = ''15155551234''" by code_simp
  have d3: "filter is_digit ''25155551234'' = ''25155551234''" by code_simp
  have d4: "filter is_digit ''555-1234'' = ''5551234''" by code_simp
  show ?thesis
    using validate_phone_digits [of "''515-555-1234''"]
      validate_phone_digits [of "''+1 515 555 1234''"]
      validate_phone_digits [of "''25155551234''"]
      validate_phone_digits [of "''555-1234''"]
    unfolding d1 d2 d3 d4 by (simp add: canonical_phone_def)
qed

section \<open>Properties of the confidence score\<close>

lemma float_facts:
  "double (4 / 10) = 3602879701896397 / 9007199254740992"
  "double (2 / 10) = 3602879701896397 / 18014398509481984"
  "double (1 / 10) = 3602879701896397 / 36028797018963968"
  "fadd (0) (3602879701896397 / 36028797018963968) = 3602879701896397 / 36028797018963968"
  "fadd (0) (3602879701896397 / 18014398509481984) = 3602879701896397 / 18014398509481984"
  "fadd (0) (3602879701896397 / 9007199254740992) = 3602879701896397 / 9007199254740992"
  "fadd (3602879701896397 / 36028797018963968) (3602879701896397 / 36028797018963968) = 3602879701896397 / 18014398509481984"
  "fadd (3602879701896397 / 18014398509481984) (3602879701896397 / 36028797018963968) = 1351079888211149 / 4503599627370496"
  "fadd (3602879701896397 / 18014398509481984) (3602879701896397 / 18014398509481984) = 3602879701896397 / 9007199254740992"
  "fadd (1351079888211149 / 4503599627370496) (3602879701896397 / 36028797018963968) = 3602879701896397 / 9007199254740992"
  "fadd (3602879701896397 / 9007199254740992) (3602879701896397 / 36028797018963968) = 1 / 2"
  "fadd (3602879701896397 / 9007199254740992) (3602879701896397 / 18014398509481984) = 1351079888211149 / 2251799813685248"
  "fadd (1 / 2) (3602879701896397 / 36028797018963968) = 5404319552844595 / 9007199254740992"
  "fadd (1351079888211149 / 2251799813685248) (3602879701896397 / 36028797018963968) = 6305039478318695 / 9007199254740992"
  "fadd (1351079888211149 / 2251799813685248) (3602879701896397 / 18014398509481984) = 3602879701896397 / 4503599627370496"
  "fadd (6305039478318695 / 9007199254740992) (3602879701896397 / 36028797018963968) = 3602879701896397 / 4503599627370496"
  "fadd (3602879701896397 / 4503599627370496) (3602879701896397 / 36028797018963968) = 8106479329266893 / 9007199254740992"
  "fadd (8106479329266893 / 9007199254740992) (3602879701896397 / 36028797018963968) = 1"
  "fdiv (0) 1 = 0"
  "fdiv (3602879701896397 / 36028797018963968) 1 = 3602879701896397 / 36028797018963968"
  "fdiv (3602879701896397 / 18014398509481984) 1 = 3602879701896397 / 18014398509481984"
  "fdiv (1351079888211149 / 4503599627370496) 1 = 1351079888211149 / 4503599627370496"
  "fdiv (3602879701896397 / 9007199254740992) 1 = 3602879701896397 / 9007199254740992"
  "fdiv (1 / 2) 1 = 1 / 2"
  "fdiv (5404319552844595 / 9007199254740992) 1 = 5404319552844595 / 9007199254740992"
  "fdiv (1351079888211149 / 2251799813685248) 1 = 1351079888211149 / 2251799813685248"
  "fdiv (6305039478318695 / 9007199254740992) 1 = 6305039478318695 / 9007199254740992"
  "fdiv (3602879701896397 / 4503599627370496) 1 = 3602879701896397 / 4503599627370496"
  "fdiv (8106479329266893 / 9007199254740992) 1 = 8106479329266893 / 9007199254740992"
  "fdiv (1) 1 = 1"
  by code_simp+

lemma double_six_tenths: "double (6 / 10) \<le> 6 / 10"
  by code_simp

lemma weighted_score_sum:
  "weighted_score n t e p l =
     (let s = (if n then fadd 0 (double (4 / 10)) else 0);
          s = (if t then fadd s (double (2 / 10)) else s);
          s = (if e then fadd s (double (2 / 10)) else s);
          s = (if p then fadd s (double (1 / 10)) else s);
          s = (if l then fadd s (double (1 / 10)) else s)
      in fdiv s 1)"
  by (induct n; induct t; induct e; induct p; induct l)
    (simp_all only: weighted_score_def Let_def if_True if_False float_facts zero_less_one)

lemma total_weight_one:
  "fadd (fadd (fadd (fadd (fadd 0 (double (4 / 10))) (double (2 / 10))) (double (2 / 10)))
     (double (1 / 10))) (double (1 / 10)) = 1"
  by (simp only: float_facts)

lemma weighted_score_near:
  "\<bar>weighted_score n t e p l -
     ((if n then 4 / 10 else 0) + (if t then 2 / 10 else 0) + (if e then 2 / 10 else 0) +
      (if p then 1 / 10 else 0) + (if l then 1 / 10 else 0))\<bar> \<le> 1 / 2 ^ 53"
  by (induct n; induct t; induct e; induct p; induct l)
    (simp_all only: weighted_score_def Let_def if_True if_False float_facts zero_less_one,
      simp_all)

lemma weighted_score_one:
  "(weighted_score n t e p l = 1) = (n \<and> t \<and> e \<and> p \<and> l)"
  by (induct n; induct t; induct e; induct p; induct l)
    (simp_all only: weighted_score_def Let_def if_True if_False float_facts zero_less_one,
      simp_all)

lemma weighted_score_valid: "6 / 10 \<le> weighted_score True True e p l"
  by (induct e; induct p; induct l)
    (simp_all only: weighted_score_def Let_def if_True if_False float_facts zero_less_one)

lemma weighted_score_name_title:
  "weighted_score True True False False False = double (6 / 10) + 1 / 2 ^ 53"
  by code_simp

lemma score_eq:
  "fst (calculate_confidence_score r) =
     weighted_score (validate_official_name (name r)) (validate_official_title (title r))
       (validate_email (email r))
       (case phone r of None \<Rightarrow> False | Some p \<Rightarrow> validate_phone p \<noteq> None)
       (truthy (linkedin_url r))"
proof (cases "phone r")
  case None
  then show ?thesis
    by (simp add: calculate_confidence_score_def weighted_score_def Let_def)
next
  case (Some p)
  show ?thesis
  proof (cases "validate_phone p")
    case None
    with Some show ?thesis
      by (simp add: calculate_confidence_score_def weighted_score_def Let_def truthy_simps)
  next
    case f: (Some f)
    then have "p \<noteq> []" using validate_phone_empty by auto
    moreover have "truthy (validate_phone p)"
      unfolding validate_phone_truthy using f by simp
    then have "truthy (Some f)" using f by simp
    ultimately show ?thesis using Some f
      by (simp add: calculate_confidence_score_def weighted_score_def Let_def)
  qed
qed

lemma snd_score:
  "snd (calculate_confidence_score r) =
     (case phone r of None \<Rightarrow> r
      | Some p \<Rightarrow> (case validate_phone p of None \<Rightarrow> r | Some f \<Rightarrow> r\<lparr>phone := Some f\<rparr>))"
proof (cases "phone r")
  case None
  then show ?thesis
    by (simp add: calculate_confidence_score_def Let_def)
next
  case (Some p)
  show ?thesis
  proof (cases "validate_phone p")
    case None
    with Some show ?thesis
      by (simp add: calculate_confidence_score_def Let_def truthy_simps)
  next
    case f: (Some f)
    then have "p \<noteq> []" using validate_phone_empty by auto
    moreover have "truthy (validate_phone p)"
      unfolding validate_phone_truthy using f by simp
    then have "truthy (Some f)" using f by simp
    ultimately show ?thesis using Some f
      by (simp add: calculate_confidence_score_def Let_def)
  qed
qed

text \<open>
  C1, as the code has it. The score is computed in floating point: starting from 0.0, the
  weight of each satisfied signal is added in the order name (0.4), title (0.2), email
  (0.2), phone that \<^const>\<open>validate_phone\<close> formats (0.1), LinkedIn URL present (0.1), and
  the sum is divided by the total weight, whose five additions give exactly 1.0. The
  score is within \<open>1 / 2 ^ 53\<close> of the exact sum of the satisfied weights, and it is 1
  exactly when all five signals hold. When the valid name and the valid title are the
  only signals it is the float 0.4 + 0.2, the next float above the float 0.6 and above
  the decimal 0.6.
\<close>

theorem confidence_score_float_sum:
  "fst (calculate_confidence_score r) =
     (let s = (if validate_official_name (name r) then fadd 0 (double (4 / 10)) else 0);
          s = (if validate_official_title (title r) then fadd s (double (2 / 10)) else s);
          s = (if validate_email (email r) then fadd s (double (2 / 10)) else s);
          s = (if (case phone r of None \<Rightarrow> False | Some p \<Rightarrow> validate_phone p \<noteq> None)
               then fadd s (double (1 / 10)) else s);
          s = (if truthy (linkedin_url r) then fadd s (double (1 / 10)) else s)
      in fdiv s 1) \<and>
   fadd (fadd (fadd (fadd (fadd 0 (double (4 / 10))) (double (2 / 10))) (double (2 / 10)))
     (double (1 / 10))) (double (1 / 10)) = 1 \<and>
   \<bar>fst (calculate_confidence_score r) -
     ((if validate_official_name (name r) then 4 / 10 else 0) +
      (if validate_official_title (title r) then 2 / 10 else 0) +
      (if validate_email (email r) then 2 / 10 else 0) +
      (if (case phone r of None \<Rightarrow> False | Some p \<Rightarrow> validate_phone p \<noteq> None)
       then 1 / 10 else 0) +
      (if truthy (linkedin_url r) then 1 / 10 else 0))\<bar> \<le> 1 / 2 ^ 53 \<and>
   (fst (calculate_confidence_score r) = 1 \<longleftrightarrow>
      validate_official_name (name r) \<and> validate_official_title (title r) \<and>
      validate_email (email r) \<and>
      (case phone r of None \<Rightarrow> False | Some p \<Rightarrow> validate_phone p \<noteq> None) \<and>
      truthy (linkedin_url r)) \<and>
   (validate_official_name (name r) \<and> validate_official_title (title r) \<and>
    \<not> validate_email (email r) \<and>
    \<not> (case phone r of None \<Rightarrow> False | Some p \<Rightarrow> validate_phone p \<noteq> None) \<and>
    \<not> truthy (linkedin_url r) \<longrightarrow>
      fst (calculate_confidence_score r) = double (6 / 10) + 1 / 2 ^ 53 \<and>
      6 / 10 < fst (calculate_confidence_score r))"
proof (intro conjI impI)
  show "fst (calculate_confidence_score r) =
     (let s = (if validate_official_name (name r) then fadd 0 (double (4 / 10)) else 0);
          s = (if validate_official_title (title r) then fadd s (double (2 / 10)) else s);
          s = (if validate_email (email r) then fadd s (double (2 / 10)) else s);
          s = (if (case phone r of None \<Rightarrow> False | Some p \<Rightarrow> validate_phone p \<noteq> None)
               then fadd s (double (1 / 10)) else s);
          s = (if truthy (linkedin_url r) then fadd s (double (1 / 10)) else s)
      in fdiv s 1)"
    unfolding score_eq by (rule weighted_score_sum)
next
  show "fadd (fadd (fadd (fadd (fadd 0 (double (4 / 10))) (double (2 / 10))) (double (2 / 10)))
     (double (1 / 10))) (double (1 / 10)) = 1"
    by (rule total_weight_one)
next
  show "\<bar>fst (calculate_confidence_score r) -
     ((if validate_official_name (name r) then 4 / 10 else 0) +
      (if validate_official_title (title r) then 2 / 10 else 0) +
      (if validate_email (email r) then 2 / 10 else 0) +
      (if (case phone r of None \<Rightarrow> False | Some p \<Rightarrow> validate_phone p \<noteq> None)
       then 1 / 10 else 0) +
      (if truthy (linkedin_url r) then 1 / 10 else 0))\<bar> \<le> 1 / 2 ^ 53"
    unfolding score_eq by (rule weighted_score_near)
next
  show "fst (calculate_confidence_score r) = 1 \<longleftrightarrow>
      validate_official_name (name r) \<and> validate_official_title (title r) \<and>
      validate_email (email r) \<and>
      (case phone r of None \<Rightarrow> False | Some p \<Rightarrow> validate_phone p \<noteq> None) \<and>
      truthy (linkedin_url r)"
    unfolding score_eq by (rule weighted_score_one)
next
  assume a: "validate_official_name (name r) \<and> validate_official_title (title r) \<and>
    \<not> validate_email (email r) \<and>
    \<not> (case phone r of None \<Rightarrow> False | Some p \<Rightarrow> validate_phone p \<noteq> None) \<and>
    \<not> truthy (linkedin_url r)"
  then have v: "fst (calculate_confidence_score r) = weighted_score True True False False False"
    by (simp add: score_eq)
  show "fst (calculate_confidence_score r) = double (6 / 10) + 1 / 2 ^ 53"
    unfolding v by (rule weighted_score_name_title)
  show "6 / 10 < fst (calculate_confidence_score r)"
    unfolding v weighted_score_name_title by code_simp
qed

theorem confidence_score_float_sum_witness:
  "validate_official_name ''Jane Doe'' \<and> validate_official_title ''Clerk'' \<and>
   fst (calculate_confidence_score jane_plain) = double (6 / 10) + 1 / 2 ^ 53 \<and>
   6 / 10 < fst (calculate_confidence_score jane_plain)"
proof -
  have n: "validate_official_name (name jane_plain)" by code_simp
  have t: "validate_official_title (title jane_plain)" by code_simp
  have e: "\<not> validate_email (email jane_plain)" by code_simp
  have p: "phone jane_plain = None" "linkedin_url jane_plain = None"
    "name jane_plain = ''Jane Doe''" "title jane_plain = ''Clerk''"
    by (simp_all add: jane_plain_def)
  show ?thesis
    using n t e p confidence_score_float_sum [of jane_plain]
    by (simp add: truthy_simps)
qed

text \<open>
  A candidate whose only signals are a valid name and a valid title does not score 0.6:
  its score is neither the float 0.6 nor the decimal 0.6, but the next float above.
\<close>

theorem name_title_score_counterexample:
  "validate_official_name (name jane_plain) \<and> validate_official_title (title jane_plain) \<and>
   \<not> validate_email (email jane_plain) \<and> phone jane_plain = None \<and>
   linkedin_url jane_plain = None \<and>
   fst (calculate_confidence_score jane_plain) \<noteq> double (6 / 10) \<and>
   fst (calculate_confidence_score jane_plain) \<noteq> 6 / 10 \<and>
   fst (calculate_confidence_score jane_plain) = 5404319552844596 / 9007199254740992"
  by code_simp

text \<open>
  C8. Scoring twice gives the same value: the second call, on the dictionary as the first
  call left it (with the phone rewritten when it formats), returns the score of the first.
\<close>

theorem score_idempotent:
  "fst (calculate_confidence_score (snd (calculate_confidence_score r))) =
   fst (calculate_confidence_score r)"
proof (cases "phone r")
  case None
  then have "snd (calculate_confidence_score r) = r" by (simp add: snd_score)
  then show ?thesis by simp
next
  case (Some p)
  show ?thesis
  proof (cases "validate_phone p")
    case None
    with Some have "snd (calculate_confidence_score r) = r" by (simp add: snd_score)
    then show ?thesis by simp
  next
    case f: (Some f)
    with Some have "snd (calculate_confidence_score r) = r\<lparr>phone := Some f\<rparr>"
      by (simp add: snd_score)
    moreover from f have "validate_phone f = Some f" by (rule validate_phone_idem)
    ultimately show ?thesis using Some f by (simp add: score_eq)
  qed
qed

theorem score_idempotent_witness:
  "fst (calculate_confidence_score (snd (calculate_confidence_score
     \<lparr>name = ''Jane Doe'', title = ''Clerk'', email = None, phone = Some ''515.555.1234'',
      linkedin_url = None, source = ''https://www.city.gov/staff'',
      confidence_score = 5 / 10\<rparr>))) = double (7 / 10) + 1 / 2 ^ 53"
proof -
  have "fst (calculate_confidence_score
     \<lparr>name = ''Jane Doe'', title = ''Clerk'', email = None, phone = Some ''515.555.1234'',
      linkedin_url = None, source = ''https://www.city.gov/staff'',
      confidence_score = 5 / 10\<rparr>) = double (7 / 10) + 1 / 2 ^ 53"
    by code_simp
  then show ?thesis
    using score_idempotent
      [of "\<lparr>name = ''Jane Doe'', title = ''Clerk'', email = None,
            phone = Some ''515.555.1234'', linkedin_url = None,
            source = ''https://www.city.gov/staff'', confidence_score = 5 / 10\<rparr>"]
    by simp
qed

text \<open>
  C10. Scoring changes nothing but the phone. When the phone is present and
  \<^const>\<open>validate_phone\<close> formats it, the call leaves the dictionary with the phone replaced
  by that form \<^verbatim>\<open>(AAA) BBB-CCCC\<close> and every other field as it was; when the phone is
  absent or does not format, the dictionary is unchanged.
\<close>

theorem score_frame:
  "name (snd (calculate_confidence_score r)) = name r \<and>
   title (snd (calculate_confidence_score r)) = title r \<and>
   email (snd (calculate_confidence_score r)) = email r \<and>
   linkedin_url (snd (calculate_confidence_score r)) = linkedin_url r \<and>
   source (snd (calculate_confidence_score r)) = source r \<and>
   confidence_score (snd (calculate_confidence_score r)) = confidence_score r \<and>
   (\<forall>p f. phone r = Some p \<and> validate_phone p = Some f \<longrightarrow>
      snd (calculate_confidence_score r) = r\<lparr>phone := Some f\<rparr> \<and>
      (\<exists>d. length d = 10 \<and> list_all is_digit d \<and> f = canonical_phone d)) \<and>
   (phone r = None \<or> (\<exists>p. phone r = Some p \<and> validate_phone p = None) \<longrightarrow>
      snd (calculate_confidence_score r) = r)"
proof -
  have "\<exists>d. length d = 10 \<and> list_all is_digit d \<and> f = canonical_phone d"
    if "validate_phone p = Some f" for p f
    using that validate_phone_cases [of p] by auto
  then show ?thesis
    by (auto simp: snd_score split: option.splits)
qed

theorem score_frame_witness:
  "snd (calculate_confidence_score
     \<lparr>name = ''Jane Doe'', title = ''Clerk'', email = None, phone = Some ''515.555.1234'',
      linkedin_url = None, source = ''https://www.city.gov/staff'',
      confidence_score = 5 / 10\<rparr>) =
     \<lparr>name = ''Jane Doe'', title = ''Clerk'', email = None, phone = Some ''(515) 555-1234'',
      linkedin_url = None, source = ''https://www.city.gov/staff'',
      confidence_score = 5 / 10\<rparr> \<and>
   snd (calculate_confidence_score
     \<lparr>name = ''Jane Doe'', title = ''Clerk'', email = None, phone = Some ''555-1234'',
      linkedin_url = None, source = ''https://www.city.gov/staff'',
      confidence_score = 5 / 10\<rparr>) =
     \<lparr>name = ''Jane Doe'', title = ''Clerk'', email = None, phone = Some ''555-1234'',
      linkedin_url = None, source = ''https://www.city.gov/staff'',
      confidence_score = 5 / 10\<rparr>"
proof -
  have a: "validate_phone ''515.555.1234'' = Some ''(515) 555-1234''" by code_simp
  have b: "validate_phone ''555-1234'' = None" by code_simp
  show ?thesis
    using a b
      score_frame [of "\<lparr>name = ''Jane Doe'', title = ''Clerk'', email = None,
            phone = Some ''515.555.1234'', linkedin_url = None,
            source = ''https://www.city.gov/staff'', confidence_score = 5 / 10\<rparr>"]
      score_frame [of "\<lparr>name = ''Jane Doe'', title = ''Clerk'', email = None,
            phone = Some ''555-1234'', linkedin_url = None,
            source = ''https://www.city.gov/staff'', confidence_score = 5 / 10\<rparr>"]
    by simp
qed

section \<open>Properties of grouping and merging\<close>

lemma group_official_skip:
  "\<not> valid_official x \<Longrightarrow> group_official G x = G"
  by (auto simp: group_official_def valid_official_def)

lemma group_official_add:
  "valid_official x \<Longrightarrow>
   group_official G x =
     AList.update (official_key x)
       ((case map_of G (official_key x) of None \<Rightarrow> [] | Some ms \<Rightarrow> ms) @ [x]) G"
  by (auto simp: group_official_def valid_official_def official_key_def Let_def
      split: option.splits)

lemma grouping_invariant:
  "distinct (map fst (foldl group_official [] xs)) \<and>
   (\<forall>k. map_of (foldl group_official [] xs) k =
      (if group_of xs k = [] then None else Some (group_of xs k)))"
proof (induction xs rule: rev_induct)
  case Nil
  show ?case by (simp add: group_of_def)
next
  case (snoc x xs)
  let ?G = "foldl group_official [] xs"
  from snoc have d: "distinct (map fst ?G)" by (rule conjunct1)
  from snoc have m: "map_of ?G k = (if group_of xs k = [] then None else Some (group_of xs k))"
    for k by blast
  show ?case
  proof (cases "valid_official x")
    case False
    then have "group_of (xs @ [x]) = group_of xs"
      by (auto simp: group_of_def fun_eq_iff)
    with False d m show ?thesis by (simp add: group_official_skip)
  next
    case True
    let ?k = "official_key x"
    have g: "foldl group_official [] (xs @ [x]) = AList.update ?k (group_of xs ?k @ [x]) ?G"
      using True m [of ?k] by (simp add: group_official_add)
    have "group_of (xs @ [x]) k =
        (if k = ?k then group_of xs ?k @ [x] else group_of xs k)" for k
      using True by (auto simp: group_of_def)
    then show ?thesis
      unfolding g using d m by (simp add: distinct_update update_conv')
  qed
qed

lemma merge_match_frame:
  "name (merge_match b x) = name b"
  "title (merge_match b x) = title b"
  "source (merge_match b x) = source b"
  "confidence_score (merge_match b x) = confidence_score b"
  by (simp_all add: merge_match_def Let_def)

lemma merge_match_fields:
  "email (merge_match b x) =
     (if \<not> truthy (email b) \<and> truthy (email x) then email x else email b)"
  "phone (merge_match b x) =
     (if \<not> truthy (phone b) \<and> truthy (phone x) then phone x else phone b)"
  "linkedin_url (merge_match b x) =
     (if \<not> truthy (linkedin_url b) \<and> truthy (linkedin_url x) then linkedin_url x
      else linkedin_url b)"
  by (simp_all add: merge_match_def Let_def)

lemma foldl_merge_match_frame:
  "name (foldl merge_match b xs) = name b \<and>
   title (foldl merge_match b xs) = title b \<and>
   source (foldl merge_match b xs) = source b \<and>
   confidence_score (foldl merge_match b xs) = confidence_score b"
  by (induction xs arbitrary: b) (simp_all add: merge_match_frame)

lemma foldl_merge_match_keeps:
  "(truthy (email b) \<longrightarrow> email (foldl merge_match b xs) = email b) \<and>
   (truthy (phone b) \<longrightarrow> phone (foldl merge_match b xs) = phone b) \<and>
   (truthy (linkedin_url b) \<longrightarrow> linkedin_url (foldl merge_match b xs) = linkedin_url b)"
  by (induction xs arbitrary: b) (simp_all add: merge_match_fields)

lemma phone_update_same: "phone r = v \<Longrightarrow> r\<lparr>phone := v\<rparr> = r"
  by auto

lemma merge_matches_Cons:
  fixes lk :: linkedin_search
  defines "M \<equiv> \<lambda>first rest. foldl merge_match first rest"
  shows "\<exists>r. merge_matches lk m s (first # rest) = Inr r \<and>
     name r = name first \<and> title r = title first \<and> source r = source first \<and>
     email r = email (M first rest) \<and>
     phone r = (case phone (M first rest) of None \<Rightarrow> None
                | Some p \<Rightarrow> (case validate_phone p of None \<Rightarrow> Some p | Some f \<Rightarrow> Some f)) \<and>
     linkedin_url r =
       (if \<not> truthy (linkedin_url (M first rest)) \<and> m \<noteq> [] \<and> s \<noteq> [] \<and>
           truthy (lk (name first) (title first) m s)
        then lk (name first) (title first) m s else linkedin_url (M first rest)) \<and>
     confidence_score r = fst (calculate_confidence_score r)"
proof -
  define B where "B = foldl merge_match first rest"
  define L where "L =
     (if \<not> truthy (linkedin_url B) \<and> m \<noteq> [] \<and> s \<noteq> []
      then let url = lk (name B) (title B) m s
           in if truthy url then B\<lparr>linkedin_url := url\<rparr> else B
      else B)"
  define R0 where "R0 = (snd (calculate_confidence_score L))
     \<lparr>confidence_score := fst (calculate_confidence_score L)\<rparr>"
  define R where "R =
     (case phone R0 of None \<Rightarrow> R0
      | Some p \<Rightarrow> if p = [] then R0
          else let formatted_phone = validate_phone p in
            if truthy formatted_phone then R0\<lparr>phone := formatted_phone\<rparr> else R0)"
  have res: "merge_matches lk m s (first # rest) = Inr R"
    unfolding merge_matches_def R_def R0_def L_def B_def Let_def split_beta by simp
  have Bf: "name B = name first" "title B = title first" "source B = source first"
    using foldl_merge_match_frame [of first rest] by (simp_all add: B_def)
  have Lf: "name L = name first" "title L = title first" "source L = source first"
    "email L = email B" "phone L = phone B"
    by (simp_all add: L_def Let_def Bf)
  have Ll: "linkedin_url L =
       (if \<not> truthy (linkedin_url B) \<and> m \<noteq> [] \<and> s \<noteq> [] \<and>
           truthy (lk (name first) (title first) m s)
        then lk (name first) (title first) m s else linkedin_url B)"
    by (simp add: L_def Let_def Bf)
  have Rp: "R = L\<lparr>confidence_score := fst (calculate_confidence_score L),
        phone := (case phone L of None \<Rightarrow> None
                | Some p \<Rightarrow> (case validate_phone p of None \<Rightarrow> Some p | Some f \<Rightarrow> Some f))\<rparr>"
  proof (cases "phone L")
    case None
    then show ?thesis by (simp add: R_def R0_def snd_score)
  next
    case (Some p)
    then have same: "L\<lparr>phone := Some p\<rparr> = L" by (rule phone_update_same)
    show ?thesis
    proof (cases "validate_phone p")
      case None
      with Some same show ?thesis
        by (simp add: R_def R0_def snd_score Let_def truthy_simps validate_phone_empty)
    next
      case f: (Some f)
      then have ff: "validate_phone f = Some f" by (rule validate_phone_idem)
      then have "f \<noteq> []" using validate_phone_empty by auto
      with Some f ff show ?thesis
        by (simp add: R_def R0_def snd_score Let_def truthy_simps)
    qed
  qed
  have sc: "fst (calculate_confidence_score R) = fst (calculate_confidence_score L)"
  proof (cases "phone L")
    case None
    then show ?thesis by (simp add: Rp score_eq)
  next
    case (Some p)
    show ?thesis
    proof (cases "validate_phone p")
      case None
      with Some show ?thesis by (simp add: Rp score_eq)
    next
      case f: (Some f)
      then have ff: "validate_phone f = Some f" by (rule validate_phone_idem)
      with Some f show ?thesis by (simp add: Rp score_eq)
    qed
  qed
  have "confidence_score R = fst (calculate_confidence_score R)"
    unfolding sc by (simp add: Rp)
  moreover have "name R = name first" "title R = title first" "source R = source first"
    "email R = email B" "linkedin_url R = linkedin_url L"
    "phone R = (case phone B of None \<Rightarrow> None
                | Some p \<Rightarrow> (case validate_phone p of None \<Rightarrow> Some p | Some f \<Rightarrow> Some f))"
    by (simp_all add: Rp Lf)
  ultimately show ?thesis
    using res Ll unfolding M_def B_def [symmetric] by simp
qed

lemma merge_groups_total:
  assumes "\<forall>g \<in> set G. snd g \<noteq> []"
  shows "\<exists>outs. merge_groups lk m s G = Inr outs \<and>
           list_all2 (\<lambda>g r. merge_matches lk m s (snd g) = Inr r) G outs"
  using assms
proof (induction G)
  case Nil
  then show ?case by simp
next
  case (Cons g G)
  obtain k ms where g: "g = (k, ms)" by (cases g)
  with Cons.prems obtain first rest where ms: "ms = first # rest"
    by (cases ms) auto
  from merge_matches_Cons [of lk m s first rest] obtain r
    where r: "merge_matches lk m s ms = Inr r" unfolding ms by blast
  from Cons obtain outs where outs: "merge_groups lk m s G = Inr outs"
    "list_all2 (\<lambda>g r. merge_matches lk m s (snd g) = Inr r) G outs"
    by auto
  from r outs g show ?case by simp
qed

lemma groups_nonempty:
  "\<forall>g \<in> set (foldl group_official [] xs). snd g = group_of xs (fst g) \<and> snd g \<noteq> []"
proof
  fix g assume g: "g \<in> set (foldl group_official [] xs)"
  obtain k ms where kms: "g = (k, ms)" by (cases g)
  from grouping_invariant [of xs] have d: "distinct (map fst (foldl group_official [] xs))"
    and m: "map_of (foldl group_official [] xs) k =
      (if group_of xs k = [] then None else Some (group_of xs k))"
    by blast+
  from g kms d have "map_of (foldl group_official [] xs) k = Some ms" by simp
  with m have "group_of xs k \<noteq> [] \<and> ms = group_of xs k"
    by (auto split: if_splits)
  with kms show "snd g = group_of xs (fst g) \<and> snd g \<noteq> []" by simp
qed

lemma group_keys:
  "set (map fst (foldl group_official [] xs)) = {k. group_of xs k \<noteq> []}"
proof -
  have "k \<in> fst ` set (foldl group_official [] xs) \<longleftrightarrow> group_of xs k \<noteq> []" for k
  proof -
    from grouping_invariant [of xs] have "map_of (foldl group_official [] xs) k =
      (if group_of xs k = [] then None else Some (group_of xs k))" by blast
    then have "map_of (foldl group_official [] xs) k = None \<longleftrightarrow> group_of xs k = []"
      by (simp split: if_splits)
    then show ?thesis unfolding map_of_eq_None_iff by blast
  qed
  then show ?thesis by auto
qed

lemma score_and_deduplicate_structure:
  "\<exists>outs. score_and_deduplicate lk xs m s = Inr (sort_key (\<lambda>x. - confidence_score x) outs) \<and>
     list_all2 (\<lambda>g r. merge_matches lk m s (group_of xs (fst g)) = Inr r)
       (foldl group_official [] xs) outs"
proof -
  from groups_nonempty [of xs] have "\<forall>g \<in> set (foldl group_official [] xs). snd g \<noteq> []"
    by blast
  from merge_groups_total [OF this, of lk m s] obtain outs where
    o: "merge_groups lk m s (foldl group_official [] xs) = Inr outs"
    and l: "list_all2 (\<lambda>g r. merge_matches lk m s (snd g) = Inr r)
       (foldl group_official [] xs) outs"
    by blast
  from l groups_nonempty [of xs]
  have l': "list_all2 (\<lambda>g r. merge_matches lk m s (group_of xs (fst g)) = Inr r)
       (foldl group_official [] xs) outs"
    by (auto simp: list_all2_conv_all_nth)
  show ?thesis
  proof (cases "xs = []")
    case True
    with o have "outs = []" by simp
    with True l' show ?thesis by (auto simp: score_and_deduplicate_def)
  next
    case False
    with o l' show ?thesis by (auto simp: score_and_deduplicate_def)
  qed
qed

lemma group_of_member:
  "c \<in> set (group_of xs k) \<Longrightarrow> valid_official c \<and> official_key c = k \<and> c \<in> set xs"
  by (simp add: group_of_def)

lemma merged_key:
  assumes "merge_matches lk m s (group_of xs k) = Inr r" and "group_of xs k \<noteq> []"
  shows "official_key r = k \<and> valid_official r"
proof -
  from assms(2) obtain first rest where g: "group_of xs k = first # rest"
    by (cases "group_of xs k") auto
  then have "first \<in> set (group_of xs k)" by simp
  then have f: "valid_official first" "official_key first = k"
    using group_of_member by blast+
  from merge_matches_Cons [of lk m s first rest] assms(1) g
  have "name r = name first" "title r = title first" by auto
  with f show ?thesis by (simp add: official_key_def valid_official_def)
qed

lemma merged_keys:
  assumes "list_all2 (\<lambda>g r. merge_matches lk m s (group_of xs (fst g)) = Inr r) G outs"
    and "\<forall>g \<in> set G. group_of xs (fst g) \<noteq> []"
  shows "map official_key outs = map fst G"
  using assms
proof (induction rule: list_all2_induct)
  case Nil
  show ?case by simp
next
  case (Cons g G r outs)
  then have "official_key r = fst g" using merged_key [of lk m s xs "fst g" r] by simp
  with Cons show ?case by simp
qed

lemma count_distinct:
  "distinct ks \<Longrightarrow> length (filter (\<lambda>k'. k' = k) ks) = (if k \<in> set ks then 1 else 0)"
  by (induction ks) auto

lemma score_and_deduplicate_outputs:
  "\<exists>out. score_and_deduplicate lk xs m s = Inr out \<and>
     (\<forall>k. length (filter (\<lambda>r. official_key r = k) out) = (if group_of xs k = [] then 0 else 1)) \<and>
     (\<forall>r \<in> set out. group_of xs (official_key r) \<noteq> [] \<and>
        merge_matches lk m s (group_of xs (official_key r)) = Inr r)"
proof -
  let ?G = "foldl group_official [] xs"
  let ?f = "\<lambda>x. - confidence_score x"
  from score_and_deduplicate_structure [of lk xs m s] obtain outs where
    res: "score_and_deduplicate lk xs m s = Inr (sort_key ?f outs)"
    and l: "list_all2 (\<lambda>g r. merge_matches lk m s (group_of xs (fst g)) = Inr r) ?G outs"
    by blast
  have ne: "\<forall>g \<in> set ?G. group_of xs (fst g) \<noteq> []"
    using groups_nonempty [of xs] by auto
  have keys: "map official_key outs = map fst ?G" using l ne by (rule merged_keys)
  have d: "distinct (map fst ?G)" using grouping_invariant [of xs] by blast
  have cnt: "length (filter (\<lambda>r. official_key r = k) (sort_key ?f outs)) =
      (if group_of xs k = [] then 0 else 1)" for k
  proof -
    have "length (filter (\<lambda>r. official_key r = k) (sort_key ?f outs)) =
        length (filter (\<lambda>r. official_key r = k) outs)"
      by (simp add: filter_sort)
    also have "\<dots> = length (filter (\<lambda>k'. k' = k) (map official_key outs))"
      by (simp add: filter_map comp_def)
    also have "\<dots> = (if k \<in> set (map fst ?G) then 1 else 0)"
      unfolding keys using d by (rule count_distinct)
    also have "\<dots> = (if group_of xs k = [] then 0 else 1)"
      unfolding group_keys by simp
    finally show ?thesis .
  qed
  have mem: "group_of xs (official_key r) \<noteq> [] \<and>
      merge_matches lk m s (group_of xs (official_key r)) = Inr r"
    if "r \<in> set (sort_key ?f outs)" for r
  proof -
    from that have "r \<in> set outs" by simp
    then obtain i where i: "i < length outs" "outs ! i = r"
      by (auto simp: in_set_conv_nth)
    with l have li: "i < length ?G"
      and mm: "merge_matches lk m s (group_of xs (fst (?G ! i))) = Inr r"
      by (auto simp: list_all2_conv_all_nth)
    from li ne have n: "group_of xs (fst (?G ! i)) \<noteq> []" by simp
    from merged_key [OF mm n] have "official_key r = fst (?G ! i)" by simp
    with mm n show ?thesis by simp
  qed
  from res cnt mem show ?thesis by blast
qed

text \<open>
  C2. \<^const>\<open>score_and_deduplicate\<close> returns exactly one record for every key
  (lower-cased name, lower-cased title) under which a candidate is filed, and none for
  any other key. The record has the name, title and source of the first candidate of its
  group, and its email, phone and LinkedIn URL are those that the merge loop leaves in the
  copy of that first candidate (the phone formatted when it validates, the LinkedIn URL
  looked up when it is still empty). One round of the merge loop copies a field of a later
  member only into a field that is empty, so a field that is populated keeps its value
  through the whole loop.
\<close>

theorem merge_one_record_per_key:
  "(\<exists>out. score_and_deduplicate lk officials_list m s = Inr out \<and>
     (\<forall>k. length (filter (\<lambda>r. official_key r = k) out) =
        (if group_of officials_list k = [] then 0 else 1)) \<and>
     (\<forall>r \<in> set out. \<exists>first rest.
        group_of officials_list (official_key r) = first # rest \<and>
        name r = name first \<and> title r = title first \<and> source r = source first \<and>
        email r = email (foldl merge_match first rest) \<and>
        phone r =
          (case phone (foldl merge_match first rest) of
             None \<Rightarrow> None
           | Some p \<Rightarrow> (case validate_phone p of None \<Rightarrow> Some p | Some f \<Rightarrow> Some f)) \<and>
        linkedin_url r =
          (if \<not> truthy (linkedin_url (foldl merge_match first rest)) \<and> m \<noteq> [] \<and> s \<noteq> [] \<and>
              truthy (lk (name first) (title first) m s)
           then lk (name first) (title first) m s
           else linkedin_url (foldl merge_match first rest)))) \<and>
   email (merge_match b x) =
     (if \<not> truthy (email b) \<and> truthy (email x) then email x else email b) \<and>
   phone (merge_match b x) =
     (if \<not> truthy (phone b) \<and> truthy (phone x) then phone x else phone b) \<and>
   linkedin_url (merge_match b x) =
     (if \<not> truthy (linkedin_url b) \<and> truthy (linkedin_url x) then linkedin_url x
      else linkedin_url b) \<and>
   (truthy (email b) \<longrightarrow> email (foldl merge_match b xs) = email b) \<and>
   (truthy (phone b) \<longrightarrow> phone (foldl merge_match b xs) = phone b) \<and>
   (truthy (linkedin_url b) \<longrightarrow> linkedin_url (foldl merge_match b xs) = linkedin_url b)"
proof -
  from score_and_deduplicate_outputs [of lk officials_list m s] obtain out where
    res: "score_and_deduplicate lk officials_list m s = Inr out"
    and cnt: "\<And>k. length (filter (\<lambda>r. official_key r = k) out) =
        (if group_of officials_list k = [] then 0 else 1)"
    and mem: "\<And>r. r \<in> set out \<Longrightarrow> group_of officials_list (official_key r) \<noteq> [] \<and>
        merge_matches lk m s (group_of officials_list (official_key r)) = Inr r"
    by blast
  have "\<exists>first rest.
        group_of officials_list (official_key r) = first # rest \<and>
        name r = name first \<and> title r = title first \<and> source r = source first \<and>
        email r = email (foldl merge_match first rest) \<and>
        phone r =
          (case phone (foldl merge_match first rest) of
             None \<Rightarrow> None
           | Some p \<Rightarrow> (case validate_phone p of None \<Rightarrow> Some p | Some f \<Rightarrow> Some f)) \<and>
        linkedin_url r =
          (if \<not> truthy (linkedin_url (foldl merge_match first rest)) \<and> m \<noteq> [] \<and> s \<noteq> [] \<and>
              truthy (lk (name first) (title first) m s)
           then lk (name first) (title first) m s
           else linkedin_url (foldl merge_match first rest))"
    if "r \<in> set out" for r
  proof -
    from mem [OF that] obtain first rest where
      g: "group_of officials_list (official_key r) = first # rest"
      and mm: "merge_matches lk m s (first # rest) = Inr r"
      by (cases "group_of officials_list (official_key r)") auto
    from merge_matches_Cons [of lk m s first rest] mm g show ?thesis by auto
  qed
  with res cnt have "\<exists>out. score_and_deduplicate lk officials_list m s = Inr out \<and>
     (\<forall>k. length (filter (\<lambda>r. official_key r = k) out) =
        (if group_of officials_list k = [] then 0 else 1)) \<and>
     (\<forall>r \<in> set out. \<exists>first rest.
        group_of officials_list (official_key r) = first # rest \<and>
        name r = name first \<and> title r = title first \<and> source r = source first \<and>
        email r = email (foldl merge_match first rest) \<and>
        phone r =
          (case phone (foldl merge_match first rest) of
             None \<Rightarrow> None
           | Some p \<Rightarrow> (case validate_phone p of None \<Rightarrow> Some p | Some f \<Rightarrow> Some f)) \<and>
        linkedin_url r =
          (if \<not> truthy (linkedin_url (foldl merge_match first rest)) \<and> m \<noteq> [] \<and> s \<noteq> [] \<and>
              truthy (lk (name first) (title first) m s)
           then lk (name first) (title first) m s
           else linkedin_url (foldl merge_match first rest)))"
    by blast
  then show ?thesis
    using foldl_merge_match_keeps [of b xs] by (simp only: merge_match_fields simp_thms)
qed

theorem merge_one_record_per_key_witness:
  "score_and_deduplicate no_linkedin [jane_email, jane_phone] '''' '''' =
     Inr [\<lparr>name = ''Jane Doe'', title = ''Clerk'', email = Some ''jane@city.gov'',
           phone = Some ''(515) 555-1234'', linkedin_url = None,
           source = ''https://www.city.gov/staff'', confidence_score = double (9 / 10)\<rparr>] \<and>
   group_of [jane_email, jane_phone] (''jane doe'', ''clerk'') = [jane_email, jane_phone] \<and>
   truthy (email jane_email) \<and>
   email (foldl merge_match jane_email [jane_phone]) = email jane_email"
proof -
  have e: "score_and_deduplicate no_linkedin [jane_email, jane_phone] '''' '''' =
     Inr [\<lparr>name = ''Jane Doe'', title = ''Clerk'', email = Some ''jane@city.gov'',
           phone = Some ''(515) 555-1234'', linkedin_url = None,
           source = ''https://www.city.gov/staff'', confidence_score = double (9 / 10)\<rparr>]"
    by code_simp
  have g: "group_of [jane_email, jane_phone] (''jane doe'', ''clerk'') = [jane_email, jane_phone]"
    by code_simp
  have t: "truthy (email jane_email)" by code_simp
  from merge_one_record_per_key
    [of no_linkedin "[jane_email, jane_phone]" "''''" "''''" jane_email jane_phone "[jane_phone]"]
  have "truthy (email jane_email) \<longrightarrow>
      email (foldl merge_match jane_email [jane_phone]) = email jane_email"
    by blast
  with e g t show ?thesis by blast
qed

lemma foldl_group_official_filter:
  "foldl group_official G (filter valid_official xs) = foldl group_official G xs"
  by (induction xs arbitrary: G) (simp_all add: group_official_skip)

lemma score_and_deduplicate_filter:
  "score_and_deduplicate lk (filter valid_official xs) m s = score_and_deduplicate lk xs m s"
proof (cases "filter valid_official xs = []")
  case True
  then have "foldl group_official [] xs = []"
    using foldl_group_official_filter [of "[]" xs] by simp
  with True show ?thesis by (simp add: score_and_deduplicate_def)
next
  case False
  then have "xs \<noteq> []" by auto
  with False show ?thesis
    by (simp add: score_and_deduplicate_def foldl_group_official_filter)
qed

text \<open>
  C6. A candidate whose name or title does not validate is skipped by the grouping loop:
  the result of \<^const>\<open>score_and_deduplicate\<close> is the result on the list without these
  candidates, and every record of the result has a name and a title that validate. The
  name \<^verbatim>\<open>Acme Vendor Solutions\<close> does not validate, whatever the other fields hold, so
  no record of the result bears it.
\<close>

theorem invalid_candidates_excluded:
  "score_and_deduplicate lk officials_list m s =
     score_and_deduplicate lk (filter valid_official officials_list) m s \<and>
   (\<exists>out. score_and_deduplicate lk officials_list m s = Inr out \<and>
      (\<forall>r \<in> set out. validate_official_name (name r) \<and> validate_official_title (title r)) \<and>
      (\<forall>r \<in> set out. name r \<noteq> ''Acme Vendor Solutions'')) \<and>
   \<not> validate_official_name ''Acme Vendor Solutions''"
proof -
  have acme: "\<not> validate_official_name ''Acme Vendor Solutions''" by code_simp
  from score_and_deduplicate_outputs [of lk officials_list m s] obtain out where
    res: "score_and_deduplicate lk officials_list m s = Inr out"
    and mem: "\<And>r. r \<in> set out \<Longrightarrow> group_of officials_list (official_key r) \<noteq> [] \<and>
        merge_matches lk m s (group_of officials_list (official_key r)) = Inr r"
    by blast
  have v: "validate_official_name (name r) \<and> validate_official_title (title r)"
    if "r \<in> set out" for r
    using mem [OF that] merged_key [of lk m s officials_list "official_key r" r]
    by (simp add: valid_official_def)
  have "name r \<noteq> ''Acme Vendor Solutions''" if "r \<in> set out" for r
  proof
    assume "name r = ''Acme Vendor Solutions''"
    with v [OF that] acme show False by simp
  qed
  with res v acme show ?thesis
    by (simp add: score_and_deduplicate_filter)
qed

theorem invalid_candidates_excluded_witness:
  "score_and_deduplicate no_linkedin [acme_vendor, jane_phone] ''Ames'' ''IA'' =
     Inr [\<lparr>name = ''Jane Doe'', title = ''Clerk'', email = None,
           phone = Some ''(515) 555-1234'', linkedin_url = None,
           source = ''https://www.city.gov/contact'',
           confidence_score = double (7 / 10) + 1 / 2 ^ 53\<rparr>] \<and>
   filter valid_official [acme_vendor, jane_phone] = [jane_phone]"
proof -
  have f: "filter valid_official [acme_vendor, jane_phone] = [jane_phone]" by code_simp
  have e: "score_and_deduplicate no_linkedin [jane_phone] ''Ames'' ''IA'' =
     Inr [\<lparr>name = ''Jane Doe'', title = ''Clerk'', email = None,
           phone = Some ''(515) 555-1234'', linkedin_url = None,
           source = ''https://www.city.gov/contact'',
           confidence_score = double (7 / 10) + 1 / 2 ^ 53\<rparr>]"
    by code_simp
  from invalid_candidates_excluded [of no_linkedin "[acme_vendor, jane_phone]" "''Ames''" "''IA''"]
  have "score_and_deduplicate no_linkedin [acme_vendor, jane_phone] ''Ames'' ''IA'' =
     score_and_deduplicate no_linkedin (filter valid_official [acme_vendor, jane_phone])
       ''Ames'' ''IA''"
    by blast
  with f e show ?thesis by simp
qed

lemma merged_fixed:
  assumes "merge_matches lk m s (first # rest) = Inr r"
  shows "snd (calculate_confidence_score r) = r"
proof -
  from merge_matches_Cons [of lk m s first rest] assms
  have p: "phone r = (case phone (foldl merge_match first rest) of None \<Rightarrow> None
                | Some p \<Rightarrow> (case validate_phone p of None \<Rightarrow> Some p | Some f \<Rightarrow> Some f))"
    by auto
  show ?thesis
  proof (cases "phone r")
    case None
    then show ?thesis by (simp add: snd_score)
  next
    case (Some q)
    show ?thesis
    proof (cases "validate_phone q")
      case None
      with Some show ?thesis by (simp add: snd_score)
    next
      case f: (Some f)
      have "validate_phone q = Some q"
        using p Some f validate_phone_idem
        by (auto split: option.splits)
      with f have "f = q" by simp
      with Some f show ?thesis by (simp add: snd_score phone_update_same)
    qed
  qed
qed

lemma filter_officials_fixed:
  assumes "\<forall>r \<in> set out. snd (calculate_confidence_score r) = r \<and>
      fst (calculate_confidence_score r) = confidence_score r \<and> t \<le> confidence_score r"
  shows "filter_officials out t = out"
  using assms
proof (induction out)
  case Nil
  show ?case by simp
next
  case (Cons r out)
  then have "calculate_confidence_score r = (confidence_score r, r)"
    by (metis list.set_intros(1) prod.collapse)
  with Cons show ?case by simp
qed

lemma valid_score:
  assumes "valid_official r"
  shows "6 / 10 \<le> fst (calculate_confidence_score r)"
proof -
  from assms have "fst (calculate_confidence_score r) =
      weighted_score True True (validate_email (email r))
        (case phone r of None \<Rightarrow> False | Some p \<Rightarrow> validate_phone p \<noteq> None)
        (truthy (linkedin_url r))"
    by (simp add: score_eq valid_official_def)
  then show ?thesis by (simp only: weighted_score_valid)
qed

text \<open>
  C4, as the code has it. \<^const>\<open>score_and_deduplicate\<close> recomputes the confidence of
  every merged record and applies no threshold. Every record of its result has a name and
  a title that validate, so its recomputed confidence is at least 0.6, the default of
  \<^const>\<open>filter_officials\<close>, and that filter with its default (the decimal 0.6, or the
  float that the literal denotes) removes nothing from the result.
\<close>

theorem output_confidence_at_least_default:
  "\<exists>out. score_and_deduplicate lk officials_list m s = Inr out \<and>
     (\<forall>r \<in> set out. confidence_score r = fst (calculate_confidence_score r) \<and>
        6 / 10 \<le> confidence_score r) \<and>
     filter_officials out (6 / 10) = out \<and>
     filter_officials out (double (6 / 10)) = out"
proof -
  from score_and_deduplicate_outputs [of lk officials_list m s] obtain out where
    res: "score_and_deduplicate lk officials_list m s = Inr out"
    and mem: "\<And>r. r \<in> set out \<Longrightarrow> group_of officials_list (official_key r) \<noteq> [] \<and>
        merge_matches lk m s (group_of officials_list (official_key r)) = Inr r"
    by blast
  have p: "snd (calculate_confidence_score r) = r \<and>
      fst (calculate_confidence_score r) = confidence_score r \<and> 6 / 10 \<le> confidence_score r"
    if "r \<in> set out" for r
  proof -
    from mem [OF that] obtain first rest where
      g: "group_of officials_list (official_key r) = first # rest"
      and mm: "merge_matches lk m s (first # rest) = Inr r"
      by (cases "group_of officials_list (official_key r)") auto
    from merge_matches_Cons [of lk m s first rest] mm
    have c: "confidence_score r = fst (calculate_confidence_score r)" by auto
    from mem [OF that] merged_key [of lk m s officials_list "official_key r" r]
    have "valid_official r" by simp
    then have "6 / 10 \<le> fst (calculate_confidence_score r)" by (rule valid_score)
    with c merged_fixed [OF mm] show ?thesis by simp
  qed
  then have "filter_officials out (6 / 10) = out"
    by (intro filter_officials_fixed) blast
  moreover have "snd (calculate_confidence_score r) = r \<and>
      fst (calculate_confidence_score r) = confidence_score r \<and>
      double (6 / 10) \<le> confidence_score r"
    if "r \<in> set out" for r
    using p [OF that] double_six_tenths by simp
  then have "filter_officials out (double (6 / 10)) = out"
    by (intro filter_officials_fixed) blast
  ultimately show ?thesis using res p by auto
qed

theorem output_confidence_at_least_default_witness:
  "score_and_deduplicate no_linkedin [jane_plain] '''' '''' =
     Inr [jane_plain\<lparr>confidence_score := double (6 / 10) + 1 / 2 ^ 53\<rparr>] \<and>
   filter_officials [jane_plain\<lparr>confidence_score := double (6 / 10) + 1 / 2 ^ 53\<rparr>]
     (double (6 / 10)) = [jane_plain\<lparr>confidence_score := double (6 / 10) + 1 / 2 ^ 53\<rparr>]"
proof -
  have e: "score_and_deduplicate no_linkedin [jane_plain] '''' '''' =
     Inr [jane_plain\<lparr>confidence_score := double (6 / 10) + 1 / 2 ^ 53\<rparr>]"
    by code_simp
  with output_confidence_at_least_default [of no_linkedin "[jane_plain]" "''''" "''''"]
  show ?thesis by auto
qed

text \<open>
  A threshold other than the default is not enforced on the result: a candidate with a
  valid name and title and nothing else is returned with the confidence 0.4 + 0.2 (in
  floating point, the next float above 0.6), although \<^const>\<open>filter_officials\<close> with the
  threshold 0.8 drops that record.
\<close>

theorem threshold_not_applied_counterexample:
  "score_and_deduplicate no_linkedin [jane_plain] '''' '''' =
     Inr [jane_plain\<lparr>confidence_score := double (6 / 10) + 1 / 2 ^ 53\<rparr>] \<and>
   confidence_score (jane_plain\<lparr>confidence_score := double (6 / 10) + 1 / 2 ^ 53\<rparr>) <
     double (8 / 10) \<and>
   filter_officials [jane_plain\<lparr>confidence_score := double (6 / 10) + 1 / 2 ^ 53\<rparr>]
     (double (8 / 10)) = []"
  by code_simp

lemma score_ignores_confidence:
  "calculate_confidence_score (a\<lparr>confidence_score := v\<rparr>) =
     (fst (calculate_confidence_score a),
      (snd (calculate_confidence_score a))\<lparr>confidence_score := v\<rparr>)"
proof (rule prod_eqI)
  show "fst (calculate_confidence_score (a\<lparr>confidence_score := v\<rparr>)) =
      fst (fst (calculate_confidence_score a),
        (snd (calculate_confidence_score a))\<lparr>confidence_score := v\<rparr>)"
    by (simp add: score_eq)
  show "snd (calculate_confidence_score (a\<lparr>confidence_score := v\<rparr>)) =
      snd (fst (calculate_confidence_score a),
        (snd (calculate_confidence_score a))\<lparr>confidence_score := v\<rparr>)"
    by (simp add: snd_score split: option.splits)
qed

lemma merge_match_confidence:
  "merge_match (b\<lparr>confidence_score := v\<rparr>) (x\<lparr>confidence_score := w\<rparr>) =
     (merge_match b x)\<lparr>confidence_score := v\<rparr>"
  by (simp add: merge_match_def Let_def)

lemma foldl_merge_match_confidence:
  assumes "list_all2 (\<lambda>a b. \<exists>v. b = a\<lparr>confidence_score := v\<rparr>) rest rest'"
  shows "foldl merge_match (b\<lparr>confidence_score := v\<rparr>) rest' =
     (foldl merge_match b rest)\<lparr>confidence_score := v\<rparr>"
  using assms
proof (induction arbitrary: b rule: list_all2_induct)
  case Nil
  show ?case by simp
next
  case (Cons x rest x' rest')
  from Cons(1) obtain w where "x' = x\<lparr>confidence_score := w\<rparr>" by blast
  with Cons.IH [of "merge_match b x"] show ?case
    by (simp add: merge_match_confidence)
qed

lemma merge_matches_confidence:
  assumes "list_all2 (\<lambda>a b. \<exists>v. b = a\<lparr>confidence_score := v\<rparr>) ms ms'"
  shows "merge_matches lk m s ms' = merge_matches lk m s ms"
proof (cases ms)
  case Nil
  with assms show ?thesis by simp
next
  case (Cons first rest)
  with assms obtain first' rest' where ms': "ms' = first' # rest'"
    and f: "\<exists>v. first' = first\<lparr>confidence_score := v\<rparr>"
    and r: "list_all2 (\<lambda>a b. \<exists>v. b = a\<lparr>confidence_score := v\<rparr>) rest rest'"
    by (auto simp: list_all2_Cons1)
  from f obtain v where v: "first' = first\<lparr>confidence_score := v\<rparr>" by blast
  have B: "foldl merge_match first' rest' = (foldl merge_match first rest)\<lparr>confidence_score := v\<rparr>"
    unfolding v using r by (rule foldl_merge_match_confidence)
  define L where "L b =
     (if \<not> truthy (linkedin_url b) \<and> m \<noteq> [] \<and> s \<noteq> []
      then let url = lk (name b) (title b) m s
           in if truthy url then b\<lparr>linkedin_url := url\<rparr> else b
      else b)" for b :: official
  define Fin where "Fin r0 =
     (case phone r0 of None \<Rightarrow> r0
      | Some p \<Rightarrow> if p = [] then r0
          else let formatted_phone = validate_phone p in
            if truthy formatted_phone then r0\<lparr>phone := formatted_phone\<rparr> else r0)"
    for r0 :: official
  have mm: "merge_matches lk m s (f # r) =
      Inr (Fin ((snd (calculate_confidence_score (L (foldl merge_match f r))))
        \<lparr>confidence_score := fst (calculate_confidence_score (L (foldl merge_match f r)))\<rparr>))"
    for f r
    unfolding merge_matches_def Fin_def L_def Let_def split_beta by simp
  have LL: "L (b\<lparr>confidence_score := v\<rparr>) = (L b)\<lparr>confidence_score := v\<rparr>" for b
    by (simp add: L_def Let_def)
  have R0: "(snd (calculate_confidence_score (L (b\<lparr>confidence_score := v\<rparr>))))
        \<lparr>confidence_score := fst (calculate_confidence_score (L (b\<lparr>confidence_score := v\<rparr>)))\<rparr> =
      (snd (calculate_confidence_score (L b)))
        \<lparr>confidence_score := fst (calculate_confidence_score (L b))\<rparr>" for b
    by (simp add: LL score_ignores_confidence)
  show ?thesis
    unfolding Cons ms' mm B R0 by (rule refl)
qed

lemma map_of_related:
  assumes "list_all2 (\<lambda>g h. fst g = fst h \<and> list_all2 R (snd g) (snd h)) G H"
  shows "rel_option (list_all2 R) (map_of G k) (map_of H k)"
  using assms by (induction rule: list_all2_induct) auto

lemma update_related:
  assumes "list_all2 (\<lambda>g h. fst g = fst h \<and> list_all2 R (snd g) (snd h)) G H"
    and "list_all2 R v w"
  shows "list_all2 (\<lambda>g h. fst g = fst h \<and> list_all2 R (snd g) (snd h))
     (AList.update k v G) (AList.update k w H)"
  using assms by (induction rule: list_all2_induct) auto

lemma group_official_related:
  fixes R :: "official \<Rightarrow> official \<Rightarrow> bool"
  defines "R \<equiv> \<lambda>a b. \<exists>v. b = a\<lparr>confidence_score := v\<rparr>"
  assumes G: "list_all2 (\<lambda>g h. fst g = fst h \<and> list_all2 R (snd g) (snd h)) G H"
    and x: "R x y"
  shows "list_all2 (\<lambda>g h. fst g = fst h \<and> list_all2 R (snd g) (snd h))
     (group_official G x) (group_official H y)"
proof -
  from x have f: "name y = name x" "title y = title x" by (auto simp: R_def)
  show ?thesis
  proof (cases "valid_official x")
    case False
    with f have "\<not> valid_official y" by (simp add: valid_official_def)
    with False G show ?thesis by (simp add: group_official_skip)
  next
    case True
    with f have vy: "valid_official y" by (simp add: valid_official_def)
    from f have k: "official_key y = official_key x" by (simp add: official_key_def)
    from map_of_related [OF G, of "official_key x"]
    have "list_all2 R
       ((case map_of G (official_key x) of None \<Rightarrow> [] | Some ms \<Rightarrow> ms) @ [x])
       ((case map_of H (official_key x) of None \<Rightarrow> [] | Some ms \<Rightarrow> ms) @ [y])"
      using x by (auto simp: rel_option_iff list_all2_appendI split: option.splits)
    from update_related [OF G this] True vy k show ?thesis
      by (simp add: group_official_add)
  qed
qed

lemma foldl_group_official_related:
  assumes "list_all2 (\<lambda>a b. \<exists>v. b = a\<lparr>confidence_score := v\<rparr>) xs ys"
    and "list_all2 (\<lambda>g h. fst g = fst h \<and>
       list_all2 (\<lambda>a b. \<exists>v. b = a\<lparr>confidence_score := v\<rparr>) (snd g) (snd h)) G H"
  shows "list_all2 (\<lambda>g h. fst g = fst h \<and>
       list_all2 (\<lambda>a b. \<exists>v. b = a\<lparr>confidence_score := v\<rparr>) (snd g) (snd h))
     (foldl group_official G xs) (foldl group_official H ys)"
  using assms
proof (induction arbitrary: G H rule: list_all2_induct)
  case Nil
  then show ?case by simp
next
  case (Cons x xs y ys)
  from group_official_related [OF Cons.prems Cons.hyps(1)] Cons.IH show ?case by simp
qed

lemma merge_groups_related:
  assumes "list_all2 (\<lambda>g h. fst g = fst h \<and>
       list_all2 (\<lambda>a b. \<exists>v. b = a\<lparr>confidence_score := v\<rparr>) (snd g) (snd h)) G H"
  shows "merge_groups lk m s H = merge_groups lk m s G"
  using assms
proof (induction rule: list_all2_induct)
  case Nil
  show ?case by simp
next
  case (Cons g G h H)
  obtain k ms where g: "g = (k, ms)" by (cases g)
  obtain k' ms' where h: "h = (k', ms')" by (cases h)
  from Cons(1) g h have "merge_matches lk m s ms' = merge_matches lk m s ms"
    by (simp add: merge_matches_confidence)
  with Cons g h show ?case by (simp cong: sum.case_cong)
qed

text \<open>
  C9, for the module that the package ships (civileads_project). Two candidate lists that
  differ only in the incoming \<^verbatim>\<open>confidence_score\<close> of their candidates give the same
  result, scores included.
\<close>

theorem score_independent_of_incoming:
  assumes "list_all2 (\<lambda>a b. \<exists>v. b = a\<lparr>confidence_score := v\<rparr>) xs ys"
  shows "score_and_deduplicate lk ys m s = score_and_deduplicate lk xs m s"
proof -
  have "list_all2 (\<lambda>g h. fst g = fst h \<and>
       list_all2 (\<lambda>a b. \<exists>v. b = a\<lparr>confidence_score := v\<rparr>) (snd g) (snd h))
     (foldl group_official [] xs) (foldl group_official [] ys)"
    using assms by (rule foldl_group_official_related) simp
  then have "merge_groups lk m s (foldl group_official [] ys) =
      merge_groups lk m s (foldl group_official [] xs)"
    by (rule merge_groups_related)
  moreover from assms have "xs = [] \<longleftrightarrow> ys = []" by auto
  ultimately show ?thesis by (simp add: score_and_deduplicate_def)
qed

theorem score_independent_of_incoming_witness:
  "score_and_deduplicate no_linkedin [jane_email\<lparr>confidence_score := double (1 / 10)\<rparr>] '''' '''' =
     Inr [jane_email\<lparr>confidence_score := double (8 / 10)\<rparr>] \<and>
   score_and_deduplicate no_linkedin [jane_email] '''' '''' =
     Inr [jane_email\<lparr>confidence_score := double (8 / 10)\<rparr>]"
proof -
  have r: "list_all2 (\<lambda>a b. \<exists>v. b = a\<lparr>confidence_score := v\<rparr>)
      [jane_email] [jane_email\<lparr>confidence_score := double (1 / 10)\<rparr>]"
    by auto
  have e: "score_and_deduplicate no_linkedin [jane_email] '''' '''' =
     Inr [jane_email\<lparr>confidence_score := double (8 / 10)\<rparr>]"
    by code_simp
  from score_independent_of_incoming [OF r, of no_linkedin "''''" "''''"] e
  show ?thesis by simp
qed

text \<open>
  The earlier module does not recompute the score: it adds to the incoming
  \<^verbatim>\<open>confidence_score\<close>. The same candidate is returned with the score 1 when it comes
  in with 0.5, and with the score 0.1 + 0.2 + 0.3 (in floating point, the next float
  above 0.6) when it comes in with 0.1.
\<close>

theorem legacy_score_depends_on_incoming_counterexample:
  "score_and_deduplicate_legacy no_linkedin [jane_email] '''' '''' =
     Inr [jane_email\<lparr>confidence_score := 1\<rparr>] \<and>
   score_and_deduplicate_legacy no_linkedin [jane_email\<lparr>confidence_score := double (1 / 10)\<rparr>] '''' '''' =
     Inr [jane_email\<lparr>confidence_score := double (6 / 10) + 1 / 2 ^ 53\<rparr>]"
  by code_simp

section \<open>Properties of site discovery\<close>

lemma try_patterns_found:
  "find (confirmed mr m s) urls = Some url \<Longrightarrow>
   try_patterns mr m s urls =
     (Some url, takeWhile (\<lambda>u. \<not> confirmed mr m s u) urls @ [url])"
  by (induction urls) (auto split: if_splits)

lemma try_patterns_none:
  "find (confirmed mr m s) urls = None \<Longrightarrow> try_patterns mr m s urls = (None, urls)"
  by (induction urls) (auto split: if_splits)

lemma try_direct_urls_fst:
  "fst (try_direct_urls mr urls) = find (reachable mr) urls"
  by (induction urls) (auto split: prod.splits)

lemma try_direct_urls_snd:
  "snd (try_direct_urls mr urls) =
     (case find (reachable mr) urls of
        None \<Rightarrow> urls
      | Some url \<Rightarrow> takeWhile (\<lambda>u. \<not> reachable mr u) urls @ [url])"
  by (induction urls) (auto split: prod.splits option.splits)

text \<open>
  C5, as the code has it. The classifier works on the lower-cased page. It accepts
  exactly when the name and the state are found, or the name and at least one keyword, or
  at least two keywords. The name is found when the lower-cased municipality name occurs,
  with or without its spaces, and for Des Moines also when \<^verbatim>\<open>dsm\<close> occurs; the state is
  found when the lower-cased state occurs; the keywords are the fixed vocabulary, to
  which four are added for Des Moines and two for Cedar Rapids. Discovery
  requests the generated URLs in the order of the list and returns the first one that
  answers with status 200 and a page that the classifier accepts; the URLs requested are
  those up to and including it. When no generated URL is accepted, the result is
  \<^term>\<open>None\<close> after all of them were requested, except for Des Moines, IA: there the four
  known URLs are requested next, in order, and the first that answers with status 200 is
  returned without the classifier.
\<close>

theorem site_discovery_first_confirmed:
  "(is_likely_municipal_site html municipality state \<longleftrightarrow>
      (let page = lower html; n = lower municipality;
           name_present =
             (contains n page \<or> contains (replace_char CHR '' '' [] n) page \<or>
              (n = ''des moines'' \<and> contains ''dsm'' page));
           region_present = contains (lower state) page;
           keywords =
             municipal_indicators @
             (if n = ''des moines''
              then [''dsm'', ''dmgov'', ''des moines city'', ''polk county'']
              else if n = ''cedar rapids'' then [''cedar rapids city'', ''linn county'']
              else []);
           present = length (filter (\<lambda>k. contains k page) keywords)
       in (name_present \<and> region_present) \<or> (name_present \<and> 1 \<le> present) \<or>
          2 \<le> present)) \<and>
   (\<forall>url. find (confirmed mr municipality state) (generate_url_patterns municipality state) =
        Some url \<longrightarrow>
      find_municipal_website mr municipality state =
        (Some url,
         takeWhile (\<lambda>u. \<not> confirmed mr municipality state u)
           (generate_url_patterns municipality state) @ [url])) \<and>
   (find (confirmed mr municipality state) (generate_url_patterns municipality state) = None \<and>
    \<not> (lower municipality = ''des moines'' \<and> lower state = ''ia'') \<longrightarrow>
      find_municipal_website mr municipality state =
        (None, generate_url_patterns municipality state)) \<and>
   (find (confirmed mr municipality state) (generate_url_patterns municipality state) = None \<and>
    lower municipality = ''des moines'' \<and> lower state = ''ia'' \<longrightarrow>
      find_municipal_website mr municipality state =
        (find (reachable mr) direct_urls,
         generate_url_patterns municipality state @
           (case find (reachable mr) direct_urls of
              None \<Rightarrow> direct_urls
            | Some url \<Rightarrow> takeWhile (\<lambda>u. \<not> reachable mr u) direct_urls @ [url])))"
proof (intro conjI allI impI)
  show "is_likely_municipal_site html municipality state \<longleftrightarrow>
      (let page = lower html; n = lower municipality;
           name_present =
             (contains n page \<or> contains (replace_char CHR '' '' [] n) page \<or>
              (n = ''des moines'' \<and> contains ''dsm'' page));
           region_present = contains (lower state) page;
           keywords =
             municipal_indicators @
             (if n = ''des moines''
              then [''dsm'', ''dmgov'', ''des moines city'', ''polk county'']
              else if n = ''cedar rapids'' then [''cedar rapids city'', ''linn county'']
              else []);
           present = length (filter (\<lambda>k. contains k page) keywords)
       in (name_present \<and> region_present) \<or> (name_present \<and> 1 \<le> present) \<or>
          2 \<le> present)"
    by (auto simp: is_likely_municipal_site_def city_specific_def Let_def)
next
  fix url
  assume "find (confirmed mr municipality state) (generate_url_patterns municipality state) =
      Some url"
  then show "find_municipal_website mr municipality state =
      (Some url,
       takeWhile (\<lambda>u. \<not> confirmed mr municipality state u)
         (generate_url_patterns municipality state) @ [url])"
    by (simp add: find_municipal_website_def try_patterns_found)
next
  assume "find (confirmed mr municipality state) (generate_url_patterns municipality state) =
      None \<and> \<not> (lower municipality = ''des moines'' \<and> lower state = ''ia'')"
  then show "find_municipal_website mr municipality state =
      (None, generate_url_patterns municipality state)"
    by (auto simp: find_municipal_website_def try_patterns_none)
next
  assume a: "find (confirmed mr municipality state) (generate_url_patterns municipality state) =
      None \<and> lower municipality = ''des moines'' \<and> lower state = ''ia''"
  have "try_direct_urls mr direct_urls =
      (find (reachable mr) direct_urls,
       (case find (reachable mr) direct_urls of
              None \<Rightarrow> direct_urls
            | Some url \<Rightarrow> takeWhile (\<lambda>u. \<not> reachable mr u) direct_urls @ [url]))"
    by (rule prod_eqI) (simp_all add: try_direct_urls_fst try_direct_urls_snd)
  with a show "find_municipal_website mr municipality state =
      (find (reachable mr) direct_urls,
       generate_url_patterns municipality state @
         (case find (reachable mr) direct_urls of
            None \<Rightarrow> direct_urls
          | Some url \<Rightarrow> takeWhile (\<lambda>u. \<not> reachable mr u) direct_urls @ [url]))"
    by (simp add: find_municipal_website_def try_patterns_none)
qed

theorem site_discovery_first_confirmed_witness:
  "find (confirmed ames_only ''Ames'' ''IA'') (generate_url_patterns ''Ames'' ''IA'') =
     Some ''https://www.cityofames.org'' \<and>
   find_municipal_website ames_only ''Ames'' ''IA'' =
     (Some ''https://www.cityofames.org'',
      [''https://www.ame.gov'', ''https://ame.gov'', ''https://www.ames.gov'',
       ''https://ames.gov'', ''https://www.ames.org'', ''https://ames.org'',
       ''https://www.ames.com'', ''https://www.cityofames.gov'',
       ''https://www.cityofames.org'']) \<and>
   find (confirmed ames_only ''Boone'' ''IA'') (generate_url_patterns ''Boone'' ''IA'') = None \<and>
   find_municipal_website ames_only ''Boone'' ''IA'' = (None, generate_url_patterns ''Boone'' ''IA'') \<and>
   find (confirmed dsm_city_only ''Des Moines'' ''IA'')
     (generate_url_patterns ''Des Moines'' ''IA'') = None \<and>
   fst (find_municipal_website dsm_city_only ''Des Moines'' ''IA'') = Some ''https://www.dsm.city'' \<and>
   is_likely_municipal_site ''dsm'' ''Des Moines'' ''IA'' \<and>
   \<not> is_likely_municipal_site ''dsm'' ''Ames'' ''IA'' \<and>
   is_likely_municipal_site ''polk county dmgov'' ''Des Moines'' ''IA'' \<and>
   \<not> is_likely_municipal_site ''polk county dmgov'' ''Ames'' ''IA''"
proof -
  have c: "is_likely_municipal_site ''dsm'' ''Des Moines'' ''IA''"
    "\<not> is_likely_municipal_site ''dsm'' ''Ames'' ''IA''"
    "is_likely_municipal_site ''polk county dmgov'' ''Des Moines'' ''IA''"
    "\<not> is_likely_municipal_site ''polk county dmgov'' ''Ames'' ''IA''"
    by code_simp+
  have a: "find (confirmed ames_only ''Ames'' ''IA'') (generate_url_patterns ''Ames'' ''IA'') =
     Some ''https://www.cityofames.org''"
    by code_simp
  have t: "takeWhile (\<lambda>u. \<not> confirmed ames_only ''Ames'' ''IA'' u)
      (generate_url_patterns ''Ames'' ''IA'') @ [''https://www.cityofames.org''] =
      [''https://www.ame.gov'', ''https://ame.gov'', ''https://www.ames.gov'',
       ''https://ames.gov'', ''https://www.ames.org'', ''https://ames.org'',
       ''https://www.ames.com'', ''https://www.cityofames.gov'',
       ''https://www.cityofames.org'']"
    by code_simp
  have b: "find (confirmed ames_only ''Boone'' ''IA'') (generate_url_patterns ''Boone'' ''IA'') =
     None"
    by code_simp
  have l: "lower ''Boone'' \<noteq> ''des moines''" by code_simp
  have d: "find (confirmed dsm_city_only ''Des Moines'' ''IA'')
     (generate_url_patterns ''Des Moines'' ''IA'') = None"
    by code_simp
  have dl: "lower ''Des Moines'' = ''des moines''" "lower ''IA'' = ''ia''" by code_simp+
  have dr: "find (reachable dsm_city_only) direct_urls = Some ''https://www.dsm.city''"
    by code_simp
  from site_discovery_first_confirmed [of "[]" "''Ames''" "''IA''" ames_only] a t
  have 1: "find_municipal_website ames_only ''Ames'' ''IA'' =
     (Some ''https://www.cityofames.org'',
      [''https://www.ame.gov'', ''https://ame.gov'', ''https://www.ames.gov'',
       ''https://ames.gov'', ''https://www.ames.org'', ''https://ames.org'',
       ''https://www.ames.com'', ''https://www.cityofames.gov'',
       ''https://www.cityofames.org''])"
    by simp
  from site_discovery_first_confirmed [of "[]" "''Boone''" "''IA''" ames_only] b l
  have 2: "find_municipal_website ames_only ''Boone'' ''IA'' =
      (None, generate_url_patterns ''Boone'' ''IA'')"
    by simp
  from site_discovery_first_confirmed [of "[]" "''Des Moines''" "''IA''" dsm_city_only] d dl dr
  have 3: "fst (find_municipal_website dsm_city_only ''Des Moines'' ''IA'') =
      Some ''https://www.dsm.city''"
    by simp
  from a b d 1 2 3 c show ?thesis by simp
qed

text \<open>
  On a network where only \<^verbatim>\<open>https://www.dsm.city\<close> answers, with an empty page that the
  classifier rejects, no generated URL for Des Moines, IA is accepted, and discovery
  still returns that URL.
\<close>

theorem des_moines_fallback_counterexample:
  "find (confirmed dsm_city_only ''Des Moines'' ''IA'')
     (generate_url_patterns ''Des Moines'' ''IA'') = None \<and>
   \<not> is_likely_municipal_site [] ''Des Moines'' ''IA'' \<and>
   fst (find_municipal_website dsm_city_only ''Des Moines'' ''IA'') = Some ''https://www.dsm.city''"
  by code_simp

section \<open>Properties of the entry point\<close>

lemma score_and_deduplicate_returns:
  "\<exists>out. score_and_deduplicate lk xs m s = Inr out"
  using score_and_deduplicate_outputs [of lk xs m s] by blast

text \<open>
  C7, as the code has it. \<^const>\<open>search_for_officials\<close> checks none of its arguments.
  For every municipality name and state, the empty ones included, its first request is
  the Google search for the query built from them, the requests of site discovery for
  the generated URLs follow, and the call returns a list of records.
\<close>

theorem entry_point_requests_first:
  "\<exists>out rest.
     search_for_officials env municipality_name state =
       (Inr out,
        google_url (municipality_name @ '' '' @ state @ '' mayor council contact'') #
        snd (find_municipal_website (make_request env) municipality_name state) @ rest)"
proof -
  obtain w p where f: "find_municipal_website (make_request env) municipality_name state = (w, p)"
    by (cases "find_municipal_website (make_request env) municipality_name state")
  obtain d q where d: "search_direct_for_officials env municipality_name state = (d, q)"
    by (cases "search_direct_for_officials env municipality_name state")
  show ?thesis
  proof (cases "w = None \<or> w = Some []")
    case True
    from score_and_deduplicate_returns
      [of "search_linkedin_profile env" "search_google env
         (municipality_name @ '' '' @ state @ '' mayor council contact'') @ d"
        municipality_name state]
    obtain out where "score_and_deduplicate (search_linkedin_profile env)
       (search_google env (municipality_name @ '' '' @ state @ '' mayor council contact'') @ d)
       municipality_name state = Inr out" by blast
    with True f d show ?thesis
      by (auto simp: search_for_officials_def Let_def)
  next
    case False
    then obtain url where u: "w = Some url" "url \<noteq> []" by (cases w) auto
    from score_and_deduplicate_returns
      [of "search_linkedin_profile env" "(search_google env
         (municipality_name @ '' '' @ state @ '' mayor council contact'') @
         scrape_municipal_website env url) @ d"
        municipality_name state]
    obtain out where "score_and_deduplicate (search_linkedin_profile env)
       ((search_google env (municipality_name @ '' '' @ state @ '' mayor council contact'') @
         scrape_municipal_website env url) @ d)
       municipality_name state = Inr out" by blast
    with u f d show ?thesis
      by (auto simp: search_for_officials_def Let_def)
  qed
qed

theorem entry_point_requests_first_witness:
  "\<exists>rest. search_for_officials offline '''' ''IA'' =
     (Inr [],
      ''https://www.google.com/search?q=+IA+mayor+council+contact'' #
      generate_url_patterns '''' ''IA'' @ rest)"
proof -
  have g: "google_url ('''' @ '' '' @ ''IA'' @ '' mayor council contact'') =
      ''https://www.google.com/search?q=+IA+mayor+council+contact''"
    by code_simp
  have r: "fst (search_for_officials offline '''' ''IA'') = Inr []" by code_simp
  have p: "snd (find_municipal_website (make_request offline) '''' ''IA'') =
      generate_url_patterns '''' ''IA''"
    by code_simp
  from entry_point_requests_first [of offline "''''" "''IA''"] obtain out rest where
    "search_for_officials offline '''' ''IA'' =
       (Inr out,
        google_url ('''' @ '' '' @ ''IA'' @ '' mayor council contact'') #
        snd (find_municipal_website (make_request offline) '''' ''IA'') @ rest)"
    by blast
  with g r p show ?thesis by auto
qed

text \<open>
  With an empty municipality name, and with an empty state, the call returns the empty
  list after it has issued the Google search request and the probes of site discovery,
  here in an environment where every request fails.
\<close>

theorem empty_name_not_rejected_counterexample:
  "fst (search_for_officials offline '''' ''IA'') = Inr [] \<and>
   hd (snd (search_for_officials offline '''' ''IA'')) =
     ''https://www.google.com/search?q=+IA+mayor+council+contact'' \<and>
   length (snd (search_for_officials offline '''' ''IA'')) = 41 \<and>
   fst (search_for_officials offline ''Ames'' '''') = Inr [] \<and>
   hd (snd (search_for_officials offline ''Ames'' '''')) =
     ''https://www.google.com/search?q=Ames++mayor+council+contact'' \<and>
   length (snd (search_for_officials offline ''Ames'' '''')) = 29"
  by code_simp

end
